theory Spec2Isabelle
  imports Main "HOL-Library.Word"
begin

unbundle bit_operations_syntax

section \<open>Shape interpretation of the runtime: size-of, compare and log walkers\<close>

text \<open>
  A shallow embedding of \<^verbatim>\<open>src/rt/rust_shape.cpp\<close>. The file holds the
  per-opcode behaviour of three walkers (\<^verbatim>\<open>size_of\<close>, \<^verbatim>\<open>cmp\<close>,
  \<^verbatim>\<open>log\<close>) and the entry points. The traversal skeleton they plug into
  (\<^verbatim>\<open>ctxt<T>::walk\<close>, \<^verbatim>\<open>data<T,U>\<close>) is declared in
  \<^verbatim>\<open>rust_shape.h\<close>, which is not among the sources: wherever a function of the
  file calls \<^verbatim>\<open>walk()\<close>, the model takes the walk as a parameter, a function
  from walker state to walker state that may not return (\<open>None\<close>). A loop around
  such a walk takes a bound on its number of iterations, the fuel, and is \<open>None\<close>
  when it has not ended within the bound. For the statements about a whole comparison,
  the dispatch of the skeleton is modelled from the specification, over a reader of the
  shape stream that is a parameter.

  Addresses and sizes (\<^verbatim>\<open>uint8_t *\<close>, \<^verbatim>\<open>size_t\<close>) are natural numbers,
  the null pointer is \<open>0\<close>; stored data are bytes (\<open>8 word\<close>); the walker's
  \<^verbatim>\<open>int result\<close> is an \<open>int\<close> and the one narrowing conversion of the file
  (a pointer difference stored in an \<^verbatim>\<open>int\<close>) is written out on 32 bits.
\<close>

subsection \<open>Memory, pointers and pairs\<close>

type_synonym addr = nat
type_synonym memory = "addr \<Rightarrow> 8 word"

text \<open>\<^verbatim>\<open>ptr_pair\<close> and \<^verbatim>\<open>data_pair<T>\<close>: two pointers, two values, with
  members \<^verbatim>\<open>fst\<close> and \<^verbatim>\<open>snd\<close>.\<close>

type_synonym ptr_pair = "addr \<times> addr"
type_synonym 'a data_pair = "'a \<times> 'a"

text \<open>Little-endian loads of \<open>n\<close> bytes, read as an unsigned number.\<close>

primrec load_le :: "memory \<Rightarrow> addr \<Rightarrow> nat \<Rightarrow> nat" where
  "load_le m a 0 = 0"
| "load_le m a (Suc n) = unat (m a) + 256 * load_le m (Suc a) n"

definition load_u8 :: "memory \<Rightarrow> addr \<Rightarrow> 8 word" where
  "load_u8 m a = m a"

definition load_u16 :: "memory \<Rightarrow> addr \<Rightarrow> 16 word" where
  "load_u16 m a = of_nat (load_le m a 2)"

definition load_u32 :: "memory \<Rightarrow> addr \<Rightarrow> 32 word" where
  "load_u32 m a = of_nat (load_le m a 4)"

definition load_u64 :: "memory \<Rightarrow> addr \<Rightarrow> 64 word" where
  "load_u64 m a = of_nat (load_le m a 8)"

text \<open>\<^verbatim>\<open>sizeof(void *)\<close> and \<^verbatim>\<open>rust_alignof<void *>()\<close> of the 64-bit
  target.\<close>

definition ptr_size :: nat where
  "ptr_size = 8"

definition load_ptr :: "memory \<Rightarrow> addr \<Rightarrow> addr" where
  "load_ptr m a = load_le m a ptr_size"

text \<open>The memory that holds the bytes \<open>bs\<close> from address 0 on and zero elsewhere,
  for the concrete instances below.\<close>

definition mem_of :: "8 word list \<Rightarrow> memory" where
  "mem_of bs a = (if a < length bs then bs ! a else 0)"

subsection \<open>Walker state\<close>

text \<open>What every walker holds (\<^verbatim>\<open>ctxt<T>\<close>): the shape cursor \<open>sp\<close>, the
  side tables and the pending-alignment flag. The task pointer takes no part in a walk
  and is left out.\<close>

record ctxt =
  sp :: addr
  tables :: addr
  align :: bool

subsection \<open>Size and alignment\<close>

text \<open>\<^verbatim>\<open>size_align\<close>: a size and an alignment.\<close>

record size_align =
  size_sa :: nat
  alignment :: nat

text \<open>Modelled from the spec: \<^verbatim>\<open>align_to\<close> of the absent header, "pad the
  running size up to a multiple of the alignment".\<close>

definition align_to :: "nat \<Rightarrow> nat \<Rightarrow> nat" where
  "align_to sz a = ((sz + a - 1) div a) * a"

text \<open>Modelled from the spec: the members of \<^verbatim>\<open>size_align\<close>, declared in the
  absent header. A default-constructed pair is \<open>(0, 1)\<close>, the accumulator the spec
  starts a struct from. \<^verbatim>\<open>set\<close> overwrites both members. \<^verbatim>\<open>is_set\<close> tells
  a memoized pair from an empty one; the file empties a pair with \<^verbatim>\<open>set(0, 0)\<close>
  (line 99), so a pair is set when its alignment is not zero. \<^verbatim>\<open>add\<close> is the
  combination rule of the spec: "pad running size up to a multiple of the new
  alignment, add new size, set alignment = max of the two".\<close>

definition size_align_default :: size_align where
  "size_align_default = \<lparr>size_sa = 0, alignment = 1\<rparr>"

definition set_sa :: "nat \<Rightarrow> nat \<Rightarrow> size_align" where
  "set_sa in_size in_align = \<lparr>size_sa = in_size, alignment = in_align\<rparr>"

definition is_set :: "size_align \<Rightarrow> bool" where
  "is_set s = (alignment s \<noteq> 0)"

definition add_sa :: "size_align \<Rightarrow> nat \<Rightarrow> nat \<Rightarrow> size_align" where
  "add_sa s extra_size extra_align =
     \<lparr>size_sa = align_to (size_sa s) extra_align + extra_size,
      alignment = max (alignment s) extra_align\<rparr>"

subsection \<open>The size-of walker\<close>

text \<open>\<^verbatim>\<open>class size_of\<close>: the walker state and the pair \<open>sa\<close> that each
  \<^verbatim>\<open>walk()\<close> leaves for the shape it has just read.\<close>

record size_of = ctxt +
  sa :: size_align

text \<open>\<^verbatim>\<open>tag_info\<close>, with the members the file uses.\<close>

record tag_info =
  tag_id :: nat
  variant_count :: nat
  largest_variants_ptr :: addr
  tag_sa :: size_align

text \<open>Modelled from the spec: \<^verbatim>\<open>get_u16_bump\<close>, the reader's read-and-advance
  of a little-endian 16-bit operand.\<close>

definition get_u16_bump :: "memory \<Rightarrow> addr \<Rightarrow> nat \<times> addr" where
  "get_u16_bump m p = (load_le m p 2, p + 2)"

text \<open>Modelled from the spec: the sub-walker constructor
  \<^verbatim>\<open>size_of(other, in_sp, in_tables)\<close>, which positions a new walker of the same
  tables at \<open>in_sp\<close>; a null argument keeps the other walker's value, as the
  constructor of \<^verbatim>\<open>cmp\<close> in the file does (lines 244-252).\<close>

definition size_of_sub :: "size_of \<Rightarrow> addr \<Rightarrow> addr \<Rightarrow> size_of" where
  "size_of_sub other in_sp in_tables =
     \<lparr>sp = (if in_sp \<noteq> 0 then in_sp else sp other),
      tables = (if in_tables \<noteq> 0 then in_tables else tables other),
      align = align other, sa = size_align_default\<rparr>"

text \<open>\<^verbatim>\<open>size_of::walk_struct1\<close> (lines 141-156). The loop runs until the shape
  cursor is at \<open>end_sp\<close>; each \<open>walk\<close> reads one field and leaves its pair in
  \<open>sa\<close>. The padding of line 148 comes before the \<^verbatim>\<open>walk()\<close> of line 149, so
  it reads the alignment the previous \<^verbatim>\<open>walk()\<close> left. The fuel bounds the
  number of iterations: \<open>None\<close> is a loop that has not ended within it (or a walk
  that has not returned).\<close>

fun walk_struct1_loop :: "nat \<Rightarrow> (size_of \<Rightarrow> size_of option) \<Rightarrow> addr \<Rightarrow> size_of \<Rightarrow> size_align \<Rightarrow> bool \<Rightarrow> size_of option" where
  "walk_struct1_loop 0 walk end_sp this struct_sa first =
     (if sp this \<noteq> end_sp then None else Some (this\<lparr>sa := struct_sa\<rparr>))"
| "walk_struct1_loop (Suc n) walk end_sp this struct_sa first =
     (if sp this \<noteq> end_sp then
        (let struct_sa1 =
               (if \<not> first
                then struct_sa\<lparr>size_sa := align_to (size_sa struct_sa) (alignment (sa this))\<rparr>
                else struct_sa)
         in case walk this of
              None \<Rightarrow> None
            | Some this1 \<Rightarrow>
                walk_struct1_loop n walk end_sp (this1\<lparr>align := True\<rparr>)
                  (add_sa struct_sa1 (size_sa (sa this1)) (alignment (sa this1))) False)
      else Some (this\<lparr>sa := struct_sa\<rparr>))"

definition walk_struct1 :: "nat \<Rightarrow> (size_of \<Rightarrow> size_of option) \<Rightarrow> addr \<Rightarrow> size_of \<Rightarrow> size_of option" where
  "walk_struct1 fuel walk end_sp this =
     walk_struct1_loop fuel walk end_sp this (set_sa 0 1) True"

text \<open>\<^verbatim>\<open>size_of::compute_tag_size\<close> (lines 92-133). The inner loop sizes one
  variant from its shape range (lines 111-120); \<open>variant_loop\<close> returns the
  variant's pair.\<close>

fun variant_loop :: "nat \<Rightarrow> (size_of \<Rightarrow> size_of option) \<Rightarrow> addr \<Rightarrow> size_of \<Rightarrow> size_align \<Rightarrow> bool \<Rightarrow> size_align option" where
  "variant_loop 0 walk variant_end sub variant_sa first =
     (if sp sub \<noteq> variant_end then None else Some variant_sa)"
| "variant_loop (Suc n) walk variant_end sub variant_sa first =
     (if sp sub \<noteq> variant_end then
        (let variant_sa1 =
               (if \<not> first
                then variant_sa\<lparr>size_sa := align_to (size_sa variant_sa) (alignment (sa sub))\<rparr>
                else variant_sa)
         in case walk sub of
              None \<Rightarrow> None
            | Some sub1 \<Rightarrow>
                variant_loop n walk variant_end (sub1\<lparr>align := True\<rparr>)
                  (add_sa variant_sa1 (size_sa (sa sub1)) (alignment (sa sub1))) False)
      else Some variant_sa)"

text \<open>The outer loop (lines 100-124) over the \<open>k\<close> ids that remain in the
  largest-variants table. \<^verbatim>\<open>get_variant_sp\<close> (absent header) resolves a variant
  id to the start and end of its shape and is a parameter.\<close>

fun largest_variants_loop :: "nat \<Rightarrow> memory \<Rightarrow> (size_of \<Rightarrow> size_of option) \<Rightarrow> (tag_info \<Rightarrow> nat \<Rightarrow> addr \<times> addr) \<Rightarrow> size_of \<Rightarrow> nat \<Rightarrow> tag_info \<Rightarrow> tag_info option" where
  "largest_variants_loop fuel m walk get_variant_sp this 0 tinfo = Some tinfo"
| "largest_variants_loop fuel m walk get_variant_sp this (Suc k) tinfo =
     (let (variant_id, p) = get_u16_bump m (largest_variants_ptr tinfo);
          tinfo1 = tinfo\<lparr>largest_variants_ptr := p\<rparr>;
          variant_ptr_and_end = get_variant_sp tinfo1 variant_id;
          variant_ptr = fst variant_ptr_and_end;
          variant_end = snd variant_ptr_and_end;
          sub = (size_of_sub this variant_ptr 0)\<lparr>align := False\<rparr>
      in case variant_loop fuel walk variant_end sub size_align_default True of
           None \<Rightarrow> None
         | Some variant_sa \<Rightarrow>
             largest_variants_loop fuel m walk get_variant_sp this k
               (if size_sa (tag_sa tinfo1) < size_sa variant_sa
                then tinfo1\<lparr>tag_sa := variant_sa\<rparr> else tinfo1))"

text \<open>\<open>tag_size\<close> and \<open>tag_align\<close> stand for \<^verbatim>\<open>sizeof(tag_variant_t)\<close> and
  \<^verbatim>\<open>rust_alignof<tag_align_t>()\<close>, whose types the absent header declares. The
  function returns the updated \<^verbatim>\<open>tinfo\<close>.\<close>

definition compute_tag_size :: "nat \<Rightarrow> memory \<Rightarrow> (size_of \<Rightarrow> size_of option) \<Rightarrow> (tag_info \<Rightarrow> nat \<Rightarrow> addr \<times> addr) \<Rightarrow> nat \<Rightarrow> nat \<Rightarrow> size_of \<Rightarrow> tag_info \<Rightarrow> tag_info option" where
  "compute_tag_size fuel m walk get_variant_sp tag_size tag_align this tinfo =
     (if is_set (tag_sa tinfo) then Some tinfo
      else
        (let (n_largest_variants, p) = get_u16_bump m (largest_variants_ptr tinfo);
             tinfo1 = tinfo\<lparr>largest_variants_ptr := p, tag_sa := set_sa 0 0\<rparr>
         in case largest_variants_loop fuel m walk get_variant_sp this n_largest_variants tinfo1 of
              None \<Rightarrow> None
            | Some tinfo2 \<Rightarrow>
                Some (if variant_count tinfo2 = 1
                      then (if size_sa (tag_sa tinfo2) = 0
                            then tinfo2\<lparr>tag_sa := set_sa 1 1\<rparr> else tinfo2)
                      else tinfo2\<lparr>tag_sa := add_sa (tag_sa tinfo2) tag_size tag_align\<rparr>)))"

text \<open>\<^verbatim>\<open>size_of::walk_tag1\<close> (lines 135-139). The call of line 137 is to the
  static overload (absent header), which runs \<^verbatim>\<open>compute_tag_size\<close> on a copy of
  the walker; the walker only serves to build the sub-walkers of the variants.\<close>

definition walk_tag1 :: "nat \<Rightarrow> memory \<Rightarrow> (size_of \<Rightarrow> size_of option) \<Rightarrow> (tag_info \<Rightarrow> nat \<Rightarrow> addr \<times> addr) \<Rightarrow> nat \<Rightarrow> nat \<Rightarrow> size_of \<Rightarrow> tag_info \<Rightarrow> (size_of \<times> tag_info) option" where
  "walk_tag1 fuel m walk get_variant_sp tag_size tag_align this tinfo =
     (case compute_tag_size fuel m walk get_variant_sp tag_size tag_align this tinfo of
        None \<Rightarrow> None
      | Some tinfo1 \<Rightarrow> Some (this\<lparr>sa := tag_sa tinfo1\<rparr>, tinfo1))"

text \<open>For the statements below. \<open>largest_variant_ids\<close> is the content of the
  largest-variants table at \<open>p\<close>, a count and that many variant ids, each read with
  \<^verbatim>\<open>get_u16_bump\<close>. \<open>variant_size\<close> is the size of a variant as a struct over
  its fields: \<^verbatim>\<open>walk_struct1\<close> run by a fresh sub-walker, alignment not pending,
  from the start to the end of the variant's shape. \<open>keep_largest\<close> keeps the strictly
  larger of two pairs.\<close>

fun table_ids :: "memory \<Rightarrow> addr \<Rightarrow> nat \<Rightarrow> nat list" where
  "table_ids m p 0 = []"
| "table_ids m p (Suc k) = fst (get_u16_bump m p) # table_ids m (snd (get_u16_bump m p)) k"

definition largest_variant_ids :: "memory \<Rightarrow> addr \<Rightarrow> nat list" where
  "largest_variant_ids m p = table_ids m (snd (get_u16_bump m p)) (fst (get_u16_bump m p))"

definition variant_size :: "nat \<Rightarrow> (size_of \<Rightarrow> size_of option) \<Rightarrow> (tag_info \<Rightarrow> nat \<Rightarrow> addr \<times> addr) \<Rightarrow> size_of \<Rightarrow> tag_info \<Rightarrow> nat \<Rightarrow> size_align option" where
  "variant_size fuel walk get_variant_sp this tinfo variant_id =
     map_option sa
       (walk_struct1 fuel walk (snd (get_variant_sp tinfo variant_id))
          ((size_of_sub this (fst (get_variant_sp tinfo variant_id)) 0)\<lparr>align := False\<rparr>))"

definition keep_largest :: "size_align \<Rightarrow> size_align \<Rightarrow> size_align" where
  "keep_largest best v = (if size_sa best < size_sa v then v else best)"

text \<open>Concrete walks for the instances below. \<open>walk_fields fs\<close> is the walk of a
  shape stream whose field at cursor position \<open>i\<close> has the pair \<open>fs ! i\<close>: it
  leaves that pair in \<open>sa\<close> and moves the cursor to the next field; past the last
  field it does not return. \<open>two_variants\<close> places variant 0 at the shape range
  from 1 to 2 and every other variant at the range from 2 to 4.\<close>

definition walk_fields :: "size_align list \<Rightarrow> size_of \<Rightarrow> size_of option" where
  "walk_fields fs this =
     (if sp this < length fs then Some (this\<lparr>sp := Suc (sp this), sa := fs ! sp this\<rparr>) else None)"

definition two_variants :: "tag_info \<Rightarrow> nat \<Rightarrow> addr \<times> addr" where
  "two_variants tinfo variant_id = (if variant_id = 0 then (1, 2) else (2, 4))"

subsection \<open>The compare walker\<close>

text \<open>\<^verbatim>\<open>class cmp : public data<cmp,ptr_pair>\<close>: the two data cursors \<open>dp\<close>,
  their limit \<open>end_dp\<close> and the running \<open>result\<close>.\<close>

record cmp = ctxt +
  dp :: ptr_pair
  end_dp :: ptr_pair
  result :: int

record type_desc =
  shape :: addr
  shape_tables :: addr

definition CMP_EQ :: "8 word" where "CMP_EQ = 0"
definition CMP_LT :: "8 word" where "CMP_LT = 1"
definition CMP_LE :: "8 word" where "CMP_LE = 2"

text \<open>The four constructors of \<^verbatim>\<open>cmp\<close> (lines 226-260). Each starts with
  \<open>result = 0\<close>; the base class leaves \<open>end_dp\<close> a null pair.\<close>

definition cmp_new :: "bool \<Rightarrow> addr \<Rightarrow> addr \<Rightarrow> addr \<Rightarrow> addr \<Rightarrow> cmp" where
  "cmp_new in_align in_sp in_tables in_data_0 in_data_1 =
     \<lparr>sp = in_sp, tables = in_tables, align = in_align,
      dp = (in_data_0, in_data_1), end_dp = (0, 0), result = 0\<rparr>"

definition cmp_sub_at :: "cmp \<Rightarrow> addr \<Rightarrow> addr \<Rightarrow> ptr_pair \<Rightarrow> cmp" where
  "cmp_sub_at other in_sp in_tables in_dp =
     \<lparr>sp = in_sp, tables = in_tables, align = align other,
      dp = in_dp, end_dp = (0, 0), result = 0\<rparr>"

definition cmp_sub :: "cmp \<Rightarrow> addr \<Rightarrow> addr \<Rightarrow> cmp" where
  "cmp_sub other in_sp in_tables =
     \<lparr>sp = (if in_sp \<noteq> 0 then in_sp else sp other),
      tables = (if in_tables \<noteq> 0 then in_tables else tables other),
      align = align other, dp = dp other, end_dp = (0, 0), result = 0\<rparr>"

definition cmp_sub_dp :: "cmp \<Rightarrow> ptr_pair \<Rightarrow> cmp" where
  "cmp_sub_dp other in_dp =
     \<lparr>sp = sp other, tables = tables other, align = align other,
      dp = in_dp, end_dp = (0, 0), result = 0\<rparr>"

text \<open>\<^verbatim>\<open>cmp_number<T>\<close> (lines 218-221, and the \<^verbatim>\<open>int32_t\<close> specialisation
  of lines 317-320, which has the same body): the three-way result from the
  \<^verbatim>\<open><\<close> and \<^verbatim>\<open>==\<close> of the scalar type \<open>T\<close>, passed as \<open>lt\<close> and
  \<open>eq\<close>.\<close>

definition cmp_number :: "('a \<Rightarrow> 'a \<Rightarrow> bool) \<Rightarrow> ('a \<Rightarrow> 'a \<Rightarrow> bool) \<Rightarrow> 'a data_pair \<Rightarrow> cmp \<Rightarrow> cmp" where
  "cmp_number lt eq nums c =
     c\<lparr>result := (if lt (fst nums) (snd nums) then - 1
                   else if eq (fst nums) (snd nums) then 0 else 1)\<rparr>"

text \<open>Modelled from the spec: \<^verbatim>\<open>get_dp<T>\<close> and \<^verbatim>\<open>bump_dp<T>\<close> of the absent
  header, the reader's "read scalar" and "read-and-advance" on a pair of data cursors:
  one value of type \<open>T\<close> from each side, and for \<open>bump_dp\<close> both cursors moved
  past it.\<close>

definition get_dp :: "(addr \<Rightarrow> 'a) \<Rightarrow> ptr_pair \<Rightarrow> 'a data_pair" where
  "get_dp load p = (load (fst p), load (snd p))"

definition bump_dp :: "(addr \<Rightarrow> 'a) \<Rightarrow> nat \<Rightarrow> ptr_pair \<Rightarrow> 'a data_pair \<times> ptr_pair" where
  "bump_dp load sz p = (get_dp load p, (fst p + sz, snd p + sz))"

text \<open>\<^verbatim>\<open>walk_number2<T>\<close> (lines 313-314).\<close>

definition walk_number2 :: "('a \<Rightarrow> 'a \<Rightarrow> bool) \<Rightarrow> ('a \<Rightarrow> 'a \<Rightarrow> bool) \<Rightarrow> (addr \<Rightarrow> 'a) \<Rightarrow> cmp \<Rightarrow> cmp" where
  "walk_number2 lt eq load c = cmp_number lt eq (get_dp load (dp c)) c"

text \<open>The scalar types a number shape stands for (the printer of lines 70-89 lists
  them) include \<^verbatim>\<open>float\<close> and \<^verbatim>\<open>double\<close>. Their \<^verbatim>\<open><\<close> and
  \<^verbatim>\<open>==\<close> are those of IEEE 754, on the bit pattern: a NaN (exponent all ones,
  fraction not zero) is neither less than nor equal to anything; the other patterns
  are ordered by sign and magnitude, the two zeros equal.\<close>

definition f32_is_nan :: "32 word \<Rightarrow> bool" where
  "f32_is_nan w = (w AND 0x7F800000 = 0x7F800000 \<and> w AND 0x007FFFFF \<noteq> 0)"

definition f32_key :: "32 word \<Rightarrow> int" where
  "f32_key w = (if bit w 31 then - uint (w AND 0x7FFFFFFF) else uint w)"

definition f32_lt :: "32 word \<Rightarrow> 32 word \<Rightarrow> bool" where
  "f32_lt a b = (\<not> f32_is_nan a \<and> \<not> f32_is_nan b \<and> f32_key a < f32_key b)"

definition f32_eq :: "32 word \<Rightarrow> 32 word \<Rightarrow> bool" where
  "f32_eq a b = (\<not> f32_is_nan a \<and> \<not> f32_is_nan b \<and> f32_key a = f32_key b)"

definition f64_is_nan :: "64 word \<Rightarrow> bool" where
  "f64_is_nan w = (w AND 0x7FF0000000000000 = 0x7FF0000000000000 \<and> w AND 0x000FFFFFFFFFFFFF \<noteq> 0)"

definition f64_key :: "64 word \<Rightarrow> int" where
  "f64_key w = (if bit w 63 then - uint (w AND 0x7FFFFFFFFFFFFFFF) else uint w)"

definition f64_lt :: "64 word \<Rightarrow> 64 word \<Rightarrow> bool" where
  "f64_lt a b = (\<not> f64_is_nan a \<and> \<not> f64_is_nan b \<and> f64_key a < f64_key b)"

definition f64_eq :: "64 word \<Rightarrow> 64 word \<Rightarrow> bool" where
  "f64_eq a b = (\<not> f64_is_nan a \<and> \<not> f64_is_nan b \<and> f64_key a = f64_key b)"

text \<open>Modelled from the spec: the \<^verbatim>\<open>ALIGN_TO\<close> macro of the absent header, the
  alignment rule of the skeleton: when alignment is pending, both data cursors are
  padded up to the alignment of what is read next.\<close>

definition ALIGN_TO :: "nat \<Rightarrow> cmp \<Rightarrow> cmp" where
  "ALIGN_TO a c =
     (if align c then c\<lparr>dp := (align_to (fst (dp c)) a, align_to (snd (dp c)) a)\<rparr> else c)"

text \<open>Modelled from the spec: the skeleton's step for a number shape
  (\<^verbatim>\<open>walk_number1\<close> of the absent header), a leaf: the alignment rule is applied,
  the operation reads the scalars, then both data cursors move past the scalar and the
  shape cursor past the one-byte opcode. \<open>walk_u8\<close> and \<open>walk_f32\<close> are the walks of
  the shapes \<^verbatim>\<open>u8\<close> and \<^verbatim>\<open>f32\<close>.\<close>

definition walk_number1 :: "('a \<Rightarrow> 'a \<Rightarrow> bool) \<Rightarrow> ('a \<Rightarrow> 'a \<Rightarrow> bool) \<Rightarrow> (addr \<Rightarrow> 'a) \<Rightarrow> nat \<Rightarrow> cmp \<Rightarrow> cmp" where
  "walk_number1 lt eq load sz c =
     (let c1 = ALIGN_TO sz c;
          c2 = walk_number2 lt eq load c1
      in c2\<lparr>sp := sp c2 + 1, dp := (fst (dp c1) + sz, snd (dp c1) + sz)\<rparr>)"

definition walk_u8 :: "memory \<Rightarrow> cmp \<Rightarrow> cmp option" where
  "walk_u8 m c = Some (walk_number1 (<) (=) (load_u8 m) 1 c)"

definition walk_f32 :: "memory \<Rightarrow> cmp \<Rightarrow> cmp option" where
  "walk_f32 m c = Some (walk_number1 f32_lt f32_eq (load_u32 m) 4 c)"

text \<open>\<^verbatim>\<open>cmp_two_pointers\<close> (lines 204-211) and \<^verbatim>\<open>cmp_pointer\<close>
  (lines 213-216).\<close>

definition cmp_two_pointers :: "memory \<Rightarrow> cmp \<Rightarrow> cmp" where
  "cmp_two_pointers m c =
     (let c1 = ALIGN_TO ptr_size c;
          (fst_words, p1) = bump_dp (load_ptr m) ptr_size (dp c1);
          (snd_words, p2) = bump_dp (load_ptr m) ptr_size p1;
          c2 = cmp_number (<) (=) fst_words (c1\<lparr>dp := p2\<rparr>)
      in if result c2 = 0 then cmp_number (<) (=) snd_words c2 else c2)"

definition cmp_pointer :: "memory \<Rightarrow> cmp \<Rightarrow> cmp" where
  "cmp_pointer m c =
     (let c1 = ALIGN_TO ptr_size c;
          (words, p1) = bump_dp (load_ptr m) ptr_size (dp c1)
      in cmp_number (<) (=) words (c1\<lparr>dp := p1\<rparr>))"

text \<open>\<^verbatim>\<open>walk_tydesc2\<close>, \<^verbatim>\<open>walk_fn2\<close> and \<^verbatim>\<open>walk_obj2\<close> (lines 297-302):
  a type descriptor is compared as one pointer, a function and an object as two. The
  \<^verbatim>\<open>char\<close> argument is not used.\<close>

definition walk_tydesc2 :: "memory \<Rightarrow> cmp \<Rightarrow> cmp" where
  "walk_tydesc2 m c = cmp_pointer m c"

definition walk_fn2 :: "memory \<Rightarrow> cmp \<Rightarrow> cmp" where
  "walk_fn2 m c = cmp_two_pointers m c"

definition walk_obj2 :: "memory \<Rightarrow> cmp \<Rightarrow> cmp" where
  "walk_obj2 m c = cmp_two_pointers m c"

text \<open>\<^verbatim>\<open>walk_subcontext2\<close> and the three \<^verbatim>\<open>walk_*_contents2\<close>
  (lines 181-202): the sub-walker walks, the result is copied.\<close>

definition walk_subcontext2 :: "(cmp \<Rightarrow> cmp option) \<Rightarrow> cmp \<Rightarrow> cmp \<Rightarrow> cmp option" where
  "walk_subcontext2 walk sub c =
     (case walk sub of None \<Rightarrow> None | Some sub1 \<Rightarrow> Some (c\<lparr>result := result sub1\<rparr>))"

definition walk_box_contents2 :: "(cmp \<Rightarrow> cmp option) \<Rightarrow> cmp \<Rightarrow> cmp \<Rightarrow> cmp option" where
  "walk_box_contents2 walk sub c =
     (case walk (sub\<lparr>align := True\<rparr>) of
        None \<Rightarrow> None | Some sub1 \<Rightarrow> Some (c\<lparr>result := result sub1\<rparr>))"

definition walk_uniq_contents2 :: "(cmp \<Rightarrow> cmp option) \<Rightarrow> cmp \<Rightarrow> cmp \<Rightarrow> cmp option" where
  "walk_uniq_contents2 walk sub c =
     (case walk (sub\<lparr>align := True\<rparr>) of
        None \<Rightarrow> None | Some sub1 \<Rightarrow> Some (c\<lparr>result := result sub1\<rparr>))"

definition walk_rptr_contents2 :: "(cmp \<Rightarrow> cmp option) \<Rightarrow> cmp \<Rightarrow> cmp \<Rightarrow> cmp option" where
  "walk_rptr_contents2 walk sub c =
     (case walk (sub\<lparr>align := True\<rparr>) of
        None \<Rightarrow> None | Some sub1 \<Rightarrow> Some (c\<lparr>result := result sub1\<rparr>))"

text \<open>Modelled from the spec: \<^verbatim>\<open>operator<\<close> of \<^verbatim>\<open>ptr_pair\<close> (absent header).
  The spec has the vector comparison never inspect the longer side's extra elements:
  a cursor pair is before its limit when both cursors are.\<close>

definition ptr_pair_less :: "ptr_pair \<Rightarrow> ptr_pair \<Rightarrow> bool" where
  "ptr_pair_less p q = (fst p < fst q \<and> snd p < snd q)"

text \<open>The conversion of a pointer difference to \<^verbatim>\<open>int\<close> (lines 334-335): the
  difference is reduced to 32 bits, two's complement.\<close>

definition ptrdiff_to_int :: "addr \<Rightarrow> addr \<Rightarrow> int" where
  "ptrdiff_to_int e b = sint (word_of_int (int e - int b) :: 32 word)"

text \<open>\<^verbatim>\<open>cmp::walk_vec2\<close> (lines 322-338). \<^verbatim>\<open>walk_reset\<close> (absent header) walks
  one element from the sub-walker's cursors and is a parameter. The loop carries the
  walker \<open>c\<close>, whose result it tests and sets, and the sub-walker.\<close>

fun walk_vec2_loop :: "nat \<Rightarrow> (cmp \<Rightarrow> cmp option) \<Rightarrow> ptr_pair \<Rightarrow> cmp \<Rightarrow> cmp \<Rightarrow> (cmp \<times> cmp) option" where
  "walk_vec2_loop 0 walk_reset data_end c sub =
     (if result c = 0 \<and> ptr_pair_less (dp sub) data_end then None else Some (c, sub))"
| "walk_vec2_loop (Suc n) walk_reset data_end c sub =
     (if result c = 0 \<and> ptr_pair_less (dp sub) data_end then
        (case walk_reset sub of
           None \<Rightarrow> None
         | Some sub1 \<Rightarrow>
             walk_vec2_loop n walk_reset data_end (c\<lparr>result := result sub1\<rparr>)
               (sub1\<lparr>align := True\<rparr>))
      else Some (c, sub))"

definition walk_vec2 :: "nat \<Rightarrow> (cmp \<Rightarrow> cmp option) \<Rightarrow> bool \<Rightarrow> ptr_pair \<times> ptr_pair \<Rightarrow> cmp \<Rightarrow> cmp option" where
  "walk_vec2 fuel walk_reset is_pod data_range c =
     (let data_end = snd data_range;
          sub = (cmp_sub_dp c (fst data_range))\<lparr>end_dp := data_end\<rparr>
      in case walk_vec2_loop fuel walk_reset data_end c sub of
           None \<Rightarrow> None
         | Some (c1, sub1) \<Rightarrow>
             Some (if result c1 = 0 then
                     (let len_fst = ptrdiff_to_int (fst (snd data_range)) (fst (fst data_range));
                          len_snd = ptrdiff_to_int (snd (snd data_range)) (snd (fst data_range))
                      in cmp_number (<) (=) (len_fst, len_snd) c1)
                   else c1))"

text \<open>\<^verbatim>\<open>cmp::walk_tag2\<close> (lines 340-347). \<^verbatim>\<open>walk_variant1\<close> (absent header)
  is a parameter.\<close>

definition walk_tag2 :: "(tag_info \<Rightarrow> nat \<Rightarrow> cmp \<Rightarrow> cmp option) \<Rightarrow> tag_info \<Rightarrow> nat data_pair \<Rightarrow> cmp \<Rightarrow> cmp option" where
  "walk_tag2 walk_variant1 tinfo tag_variants c =
     (let c1 = cmp_number (<) (=) tag_variants c
      in if result c1 \<noteq> 0 then Some c1 else walk_variant1 tinfo (fst tag_variants) c1)"

text \<open>\<^verbatim>\<open>cmp::walk_struct2\<close> (lines 349-355).\<close>

fun walk_struct2 :: "nat \<Rightarrow> (cmp \<Rightarrow> cmp option) \<Rightarrow> addr \<Rightarrow> cmp \<Rightarrow> cmp option" where
  "walk_struct2 0 walk end_sp c =
     (if result c = 0 \<and> sp c \<noteq> end_sp then None else Some c)"
| "walk_struct2 (Suc n) walk end_sp c =
     (if result c = 0 \<and> sp c \<noteq> end_sp then
        (case walk c of
           None \<Rightarrow> None
         | Some c1 \<Rightarrow> walk_struct2 n walk end_sp (c1\<lparr>align := True\<rparr>))
      else Some c)"

text \<open>\<^verbatim>\<open>cmp::walk_res2\<close> (lines 357-360): neither the destructor nor the end
  of the resource's shape is used.\<close>

definition walk_res2 :: "memory \<Rightarrow> addr \<Rightarrow> addr \<Rightarrow> cmp \<Rightarrow> cmp" where
  "walk_res2 m dtor end_sp c = cmp_two_pointers m c"

text \<open>\<^verbatim>\<open>cmp::walk_variant2\<close> (lines 362-375). The loop carries the walker \<open>c\<close>
  and the sub-walker positioned at the variant's shape.\<close>

fun walk_variant2_loop :: "nat \<Rightarrow> (cmp \<Rightarrow> cmp option) \<Rightarrow> addr \<Rightarrow> cmp \<Rightarrow> cmp \<Rightarrow> (cmp \<times> cmp) option" where
  "walk_variant2_loop 0 walk variant_end c sub =
     (if result c = 0 \<and> sp sub < variant_end then None else Some (c, sub))"
| "walk_variant2_loop (Suc n) walk variant_end c sub =
     (if result c = 0 \<and> sp sub < variant_end then
        (case walk sub of
           None \<Rightarrow> None
         | Some sub1 \<Rightarrow>
             walk_variant2_loop n walk variant_end (c\<lparr>result := result sub1\<rparr>)
               (sub1\<lparr>align := True\<rparr>))
      else Some (c, sub))"

definition walk_variant2 :: "nat \<Rightarrow> (cmp \<Rightarrow> cmp option) \<Rightarrow> tag_info \<Rightarrow> nat \<Rightarrow> addr \<times> addr \<Rightarrow> cmp \<Rightarrow> cmp option" where
  "walk_variant2 fuel walk tinfo variant_id variant_ptr_and_end c =
     map_option fst
       (walk_variant2_loop fuel walk (snd variant_ptr_and_end) c
          (cmp_sub c (fst variant_ptr_and_end) 0))"

text \<open>The three-way comparison of two unsigned words, and the memory of two resource
  instances at addresses 0 and 24, for the concrete instance below: each holds the word
  pair (5, 9) followed by an eight-byte trailing field, filled with \<open>t1\<close> in the
  first instance and with \<open>t2\<close> in the second.\<close>

definition three_way :: "nat \<Rightarrow> nat \<Rightarrow> int" where
  "three_way a b = (if a < b then - 1 else if a = b then 0 else 1)"

definition res_memory :: "8 word \<Rightarrow> 8 word \<Rightarrow> memory" where
  "res_memory t1 t2 a =
     (if a = 0 \<or> a = 24 then 5 else if a = 8 \<or> a = 32 then 9
      else if 16 \<le> a \<and> a < 24 then t1 else if 40 \<le> a \<and> a < 48 then t2 else 0)"

text \<open>For the comparison of vectors. \<open>elements_walk\<close> says of the element walk
  that, wherever both cursors are before their ends, it returns, moves both cursors by
  the element size \<open>sz\<close> and leaves the comparison \<open>ecmp\<close> of the two elements
  it read as its result. \<open>first_mismatch\<close> is the first comparison other than zero
  among the first \<open>k\<close> element pairs from the cursor pair \<open>p\<close>, or zero if they
  all tie.\<close>

definition elements_walk :: "(cmp \<Rightarrow> cmp option) \<Rightarrow> ptr_pair \<Rightarrow> nat \<Rightarrow> (ptr_pair \<Rightarrow> int) \<Rightarrow> bool" where
  "elements_walk walk_reset data_end sz ecmp =
     (\<forall>s. ptr_pair_less (dp s) data_end \<longrightarrow>
        (\<exists>sa. walk_reset s = Some sa \<and> dp sa = (fst (dp s) + sz, snd (dp s) + sz)
              \<and> result sa = ecmp (dp s)))"

fun first_mismatch :: "(ptr_pair \<Rightarrow> int) \<Rightarrow> nat \<Rightarrow> ptr_pair \<Rightarrow> nat \<Rightarrow> int" where
  "first_mismatch ecmp sz p 0 = 0"
| "first_mismatch ecmp sz p (Suc k) =
     (if ecmp p \<noteq> 0 then ecmp p else first_mismatch ecmp sz (fst p + sz, snd p + sz) k)"

subsection \<open>The log walker\<close>

text \<open>The output stream of the log walker, a \<^verbatim>\<open>std::stringstream\<close>: the text
  written so far, the number base (\<^verbatim>\<open>std::hex\<close> or \<^verbatim>\<open>std::dec\<close>), the fill
  character and the field width, which every formatted output resets to zero.\<close>

record ostream =
  buf :: string
  hex :: bool
  fill :: char
  width :: nat

definition put :: "string \<Rightarrow> ostream \<Rightarrow> ostream" where
  "put s os = os\<lparr>buf := buf os @ replicate (width os - length s) (fill os) @ s, width := 0\<rparr>"

definition digit_char :: "nat \<Rightarrow> char" where
  "digit_char d = (if d < 10 then char_of (48 + d) else char_of (87 + d))"

function show_base :: "nat \<Rightarrow> nat \<Rightarrow> string" where
  "show_base b n =
     (if b < 2 \<or> n < b then [digit_char n] else show_base b (n div b) @ [digit_char (n mod b)])"
  by pat_completeness auto
termination
  by (relation "measure (\<lambda>(b, n). n)") auto

declare show_base.simps [simp del]

definition put_unsigned :: "nat \<Rightarrow> ostream \<Rightarrow> ostream" where
  "put_unsigned n os = put (show_base (if hex os then 16 else 10) n) os"

text \<open>\<^verbatim>\<open>isprint\<close> of the C locale: the bytes \<open>0x20\<close> to \<open>0x7E\<close>.\<close>

definition isprint :: "8 word \<Rightarrow> bool" where
  "isprint ch = (0x20 \<le> ch \<and> ch \<le> 0x7E)"

text \<open>\<^verbatim>\<open>class log\<close>, with the members \<^verbatim>\<open>walk_string2\<close> uses: the stream and
  the separator \<open>prefix\<close> to write before the value.\<close>

record log = ctxt +
  out :: ostream
  prefix :: string

text \<open>\<^verbatim>\<open>log::walk_string2\<close> (lines 380-405). \<open>escape\<close> is the body of the loop
  for one byte (the \<^verbatim>\<open>switch\<close> of lines 387-400), \<open>walk_string2_loop\<close> the loop
  over the bytes from \<open>subdp\<close> up to the end of the data.\<close>

definition escape :: "8 word \<Rightarrow> ostream \<Rightarrow> ostream" where
  "escape ch os =
     (if ch = 0x0A then put [CHR 0x5C, CHR ''n''] os
      else if ch = 0x0D then put [CHR 0x5C, CHR ''r''] os
      else if ch = 0x09 then put [CHR 0x5C, CHR ''t''] os
      else if ch = 0x5C then put [CHR 0x5C, CHR 0x5C] os
      else if ch = 0x22 then put [CHR 0x5C, CHR 0x22] os
      else if isprint ch then put [char_of (unat ch)] os
      else if ch \<noteq> 0 then
        put_unsigned (unat ch) ((put [CHR 0x5C, CHR ''x''] os)\<lparr>width := 2, fill := CHR ''0''\<rparr>)
      else os)"

function walk_string2_loop :: "memory \<Rightarrow> addr \<Rightarrow> addr \<Rightarrow> ostream \<Rightarrow> ostream" where
  "walk_string2_loop m subdp data_end os =
     (if subdp < data_end then walk_string2_loop m (Suc subdp) data_end (escape (m subdp) os)
      else os)"
  by pat_completeness auto
termination
  by (relation "measure (\<lambda>(m, subdp, data_end, os). data_end - subdp)") auto

declare walk_string2_loop.simps [simp del]

definition walk_string2 :: "memory \<Rightarrow> addr \<times> addr \<Rightarrow> log \<Rightarrow> log" where
  "walk_string2 m data lg =
     (let out1 = (put [CHR 0x22] (put (prefix lg) (out lg)))\<lparr>hex := True\<rparr>;
          out2 = walk_string2_loop m (fst data) (snd data) out1
      in lg\<lparr>out := (put [CHR 0x22] out2)\<lparr>hex := False\<rparr>\<rparr>)"

text \<open>Modelled from the spec: the walker the entry points build (the constructor of
  \<^verbatim>\<open>log\<close> is in the absent header) writes to a fresh stream, decimal, filled
  with spaces, and its separator is empty at top level.\<close>

definition ostream_new :: ostream where
  "ostream_new = \<lparr>buf = [], hex = False, fill = CHR '' '', width = 0\<rparr>"

definition log_new :: "bool \<Rightarrow> addr \<Rightarrow> addr \<Rightarrow> ostream \<Rightarrow> log" where
  "log_new in_align in_sp in_tables os =
     \<lparr>sp = in_sp, tables = in_tables, align = in_align, out = os, prefix = []\<rparr>"

text \<open>The rendering of one byte in the words of the spec, with the zero byte, which
  the code leaves out, as a case of its own: the two-character escapes, printable bytes
  as they are, and two lower-case hexadecimal digits after \<open>\x\<close> for the rest.\<close>

definition render_byte :: "8 word \<Rightarrow> string" where
  "render_byte ch =
     (if ch = 0x0A then [CHR 0x5C, CHR ''n'']
      else if ch = 0x0D then [CHR 0x5C, CHR ''r'']
      else if ch = 0x09 then [CHR 0x5C, CHR ''t'']
      else if ch = 0x5C then [CHR 0x5C, CHR 0x5C]
      else if ch = 0x22 then [CHR 0x5C, CHR 0x22]
      else if isprint ch then [char_of (unat ch)]
      else if ch = 0 then []
      else [CHR 0x5C, CHR ''x'', digit_char (unat ch div 16), digit_char (unat ch mod 16)])"

subsection \<open>Entry point of the comparison\<close>

text \<open>\<^verbatim>\<open>shape_cmp_type\<close> (lines 486-501). \<open>result_byte\<close> is the content of
  \<^verbatim>\<open>*result\<close> before the call; the function returns the walker after
  \<^verbatim>\<open>cmp.walk()\<close> together with the content of \<^verbatim>\<open>*result\<close> after the
  \<^verbatim>\<open>switch\<close>, which has no default case.\<close>

definition shape_cmp_type :: "(cmp \<Rightarrow> cmp option) \<Rightarrow> 8 word \<Rightarrow> type_desc \<Rightarrow> addr \<Rightarrow> addr \<Rightarrow> 8 word \<Rightarrow> (cmp \<times> 8 word) option" where
  "shape_cmp_type walk result_byte tydesc data_0 data_1 cmp_type =
     (case walk (cmp_new True (shape tydesc) (shape_tables tydesc) data_0 data_1) of
        None \<Rightarrow> None
      | Some c \<Rightarrow>
          Some (c,
            if cmp_type = CMP_EQ then of_bool (result c = 0)
            else if cmp_type = CMP_LT then of_bool (result c < 0)
            else if cmp_type = CMP_LE then of_bool (result c \<le> 0)
            else result_byte))"

subsection \<open>The traversal skeleton of the comparison\<close>

text \<open>The scalar types of a number shape, as the printer of the file lists them
  (lines 70-89).\<close>

datatype num_kind = U8 | U16 | U32 | U64 | I8 | I16 | I32 | I64 | F32 | F64

text \<open>Modelled from the spec: the opcode classes of the shape stream, as the reader
  decodes them, "the opcode at the current position plus its operands". A number
  carries its scalar type; a struct the position of its first field and its declared
  end; a tagged union its \<^verbatim>\<open>tag_info\<close> and the position after the operands; a
  vector (boxed or unboxed vector, slice, fixed vector) its kind, the \<^verbatim>\<open>is_pod\<close>
  flag, the position of the element shape and its end; an indirection (box, unique,
  borrowed pointer, trait) its kind, the position of the pointee shape and its end; a
  function, an object and a type descriptor the position after them; a resource its
  destructor and its end.\<close>

datatype vec_kind = BoxedVec | UnboxedVec | Slice bool | FixedVec nat nat

datatype ptr_kind = BoxPtr | UniqPtr | RPtr | TraitPtr

datatype shape_op =
    SHAPE_NUMBER num_kind
  | SHAPE_STRUCT addr addr
  | SHAPE_TAG tag_info addr
  | SHAPE_VEC vec_kind bool addr addr
  | SHAPE_PTR ptr_kind addr addr
  | SHAPE_FN addr
  | SHAPE_OBJ addr
  | SHAPE_TYDESC addr
  | SHAPE_RES addr addr

text \<open>What the absent header supplies to a walk, all of it a parameter: the decoding
  of the shape stream (\<open>decode\<close>), the lookup of a variant's shape range in the side
  tables (\<open>variant_range\<close>, \<^verbatim>\<open>get_variant_sp\<close>), the size of a discriminant
  (\<open>discr_size\<close>), the element range of the vector whose representation is at a
  data address (\<open>vec_range\<close>, the \<^verbatim>\<open>get_*_data_range\<close> functions), the size and
  alignment of that representation (\<open>vec_sa\<close>), the address an indirection at a
  data address points to (\<open>pointee\<close>) and the size of a resource with a given
  destructor, its two words and its trailing fields (\<open>res_size\<close>).\<close>

record reader =
  decode :: "addr \<Rightarrow> shape_op"
  variant_range :: "tag_info \<Rightarrow> nat \<Rightarrow> addr \<times> addr"
  discr_size :: nat
  vec_range :: "vec_kind \<Rightarrow> addr \<Rightarrow> addr \<times> addr"
  vec_sa :: "vec_kind \<Rightarrow> size_align"
  pointee :: "ptr_kind \<Rightarrow> addr \<Rightarrow> addr"
  res_size :: "addr \<Rightarrow> nat"

text \<open>Modelled from the spec: the skeleton's step for a number shape of each scalar
  type \<open>T\<close>: \<open>walk_number1\<close> with the size of \<open>T\<close> and the \<^verbatim>\<open><\<close> and
  \<^verbatim>\<open>==\<close> of \<open>T\<close>, unsigned, signed or IEEE.\<close>

definition walk_number_kind :: "memory \<Rightarrow> num_kind \<Rightarrow> cmp \<Rightarrow> cmp" where
  "walk_number_kind m k c =
     (case k of
        U8 \<Rightarrow> walk_number1 (<) (=) (load_u8 m) 1 c
      | U16 \<Rightarrow> walk_number1 (<) (=) (load_u16 m) 2 c
      | U32 \<Rightarrow> walk_number1 (<) (=) (load_u32 m) 4 c
      | U64 \<Rightarrow> walk_number1 (<) (=) (load_u64 m) 8 c
      | I8 \<Rightarrow> walk_number1 word_sless (=) (load_u8 m) 1 c
      | I16 \<Rightarrow> walk_number1 word_sless (=) (load_u16 m) 2 c
      | I32 \<Rightarrow> walk_number1 word_sless (=) (load_u32 m) 4 c
      | I64 \<Rightarrow> walk_number1 word_sless (=) (load_u64 m) 8 c
      | F32 \<Rightarrow> walk_number1 f32_lt f32_eq (load_u32 m) 4 c
      | F64 \<Rightarrow> walk_number1 f64_lt f64_eq (load_u64 m) 8 c)"

text \<open>Modelled from the spec: the skeleton's step for a struct. The fields are walked
  by \<^verbatim>\<open>walk_struct2\<close> from the first field; then, by the invariant of the
  skeleton ("after recursing an aggregate/variant, the shape cursor sits exactly at its
  end"), the shape cursor is put at the declared end of the struct.\<close>

definition walk_struct0 :: "nat \<Rightarrow> (cmp \<Rightarrow> cmp option) \<Rightarrow> addr \<Rightarrow> addr \<Rightarrow> cmp \<Rightarrow> cmp option" where
  "walk_struct0 fuel walk body end_sp c =
     map_option (\<lambda>ca. ca\<lparr>sp := end_sp\<rparr>) (walk_struct2 fuel walk end_sp (c\<lparr>sp := body\<rparr>))"

text \<open>Modelled from the spec: \<^verbatim>\<open>walk_variant1\<close>, which \<^verbatim>\<open>walk_tag2\<close> calls
  (line 346): "tagged-union recursion must jump via the ShapeTables lookup". It resolves
  the variant's shape range and hands it to \<^verbatim>\<open>walk_variant2\<close>.\<close>

definition walk_variant1 :: "nat \<Rightarrow> (cmp \<Rightarrow> cmp option) \<Rightarrow> (tag_info \<Rightarrow> nat \<Rightarrow> addr \<times> addr) \<Rightarrow> tag_info \<Rightarrow> nat \<Rightarrow> cmp \<Rightarrow> cmp option" where
  "walk_variant1 fuel walk get_variant_sp tinfo variant_id c =
     walk_variant2 fuel walk tinfo variant_id (get_variant_sp tinfo variant_id) c"

text \<open>Modelled from the spec: the skeleton's step for a tagged union, "read live
  discriminant, recurse into exactly the selected variant's payload". The alignment rule
  is applied with the alignment of the union, the discriminant is read from both
  instances and the data cursors moved past it, \<^verbatim>\<open>walk_tag2\<close> compares; then the
  shape cursor is after the union's shape and the data cursors after the union, whose
  size the \<^verbatim>\<open>tag_info\<close> holds.\<close>

definition walk_tag0 :: "nat \<Rightarrow> (cmp \<Rightarrow> cmp option) \<Rightarrow> memory \<Rightarrow> (tag_info \<Rightarrow> nat \<Rightarrow> addr \<times> addr) \<Rightarrow> nat \<Rightarrow> tag_info \<Rightarrow> addr \<Rightarrow> cmp \<Rightarrow> cmp option" where
  "walk_tag0 fuel walk m get_variant_sp tag_size tinfo after c =
     (let c1 = ALIGN_TO (alignment (tag_sa tinfo)) c;
          (tag_variants, p) = bump_dp (\<lambda>a. load_le m a tag_size) tag_size (dp c1)
      in map_option
           (\<lambda>ca. ca\<lparr>sp := after,
                    dp := (fst (dp c1) + size_sa (tag_sa tinfo), snd (dp c1) + size_sa (tag_sa tinfo))\<rparr>)
           (walk_tag2 (walk_variant1 fuel walk get_variant_sp) tinfo tag_variants
              (c1\<lparr>sp := after, dp := p\<rparr>)))"

text \<open>Modelled from the spec: the data range of a pair of vectors, "compare advances
  two data cursors in lockstep": the element range of each side, found the same way
  from each data cursor.\<close>

definition get_data_range :: "(addr \<Rightarrow> addr \<times> addr) \<Rightarrow> ptr_pair \<Rightarrow> ptr_pair \<times> ptr_pair" where
  "get_data_range get_range p =
     ((fst (get_range (fst p)), fst (get_range (snd p))),
      (snd (get_range (fst p)), snd (get_range (snd p))))"

text \<open>\<^verbatim>\<open>walk_vec2(is_pod)\<close>, \<^verbatim>\<open>walk_unboxed_vec2\<close>, \<^verbatim>\<open>walk_slice2\<close> and
  \<^verbatim>\<open>walk_fixedvec2\<close> (lines 262-279): each hands the data range of the vectors at
  the data cursors to \<^verbatim>\<open>walk_vec2\<close>; \<open>get_range\<close> stands for the
  \<^verbatim>\<open>get_*_data_range\<close> function of the kind of vector.\<close>

definition walk_vec2_at :: "nat \<Rightarrow> (cmp \<Rightarrow> cmp option) \<Rightarrow> (ptr_pair \<Rightarrow> ptr_pair \<times> ptr_pair) \<Rightarrow> bool \<Rightarrow> cmp \<Rightarrow> cmp option" where
  "walk_vec2_at fuel walk_reset get_range is_pod c =
     walk_vec2 fuel walk_reset is_pod (get_range (dp c)) c"

text \<open>Modelled from the spec: \<^verbatim>\<open>walk_reset\<close>, which walks one element and puts
  the shape cursor back at the start of the element shape, so that every element is
  walked over the same shape.\<close>

definition reset_walk :: "(cmp \<Rightarrow> cmp option) \<Rightarrow> cmp \<Rightarrow> cmp option" where
  "reset_walk walk sub = map_option (\<lambda>s. s\<lparr>sp := sp sub\<rparr>) (walk sub)"

text \<open>Modelled from the spec: the skeleton's step for a vector, "compute element
  range; iterate elements with alignment rule between them". The alignment rule is
  applied with the alignment of the vector's representation \<open>rep\<close>, the elements are
  compared from the element shape; then the shape cursor is at the end of the vector's
  shape and the data cursors after the representation.\<close>

definition walk_vec0 :: "nat \<Rightarrow> (cmp \<Rightarrow> cmp option) \<Rightarrow> (addr \<Rightarrow> addr \<times> addr) \<Rightarrow> size_align \<Rightarrow> bool \<Rightarrow> addr \<Rightarrow> addr \<Rightarrow> cmp \<Rightarrow> cmp option" where
  "walk_vec0 fuel walk get_range rep is_pod elt end_sp c =
     (let c1 = ALIGN_TO (alignment rep) c
      in map_option
           (\<lambda>ca. ca\<lparr>sp := end_sp, dp := (fst (dp c1) + size_sa rep, snd (dp c1) + size_sa rep)\<rparr>)
           (walk_vec2_at fuel (reset_walk walk) (get_data_range get_range) is_pod (c1\<lparr>sp := elt\<rparr>)))"

text \<open>Modelled from the spec: \<^verbatim>\<open>walk_box_contents1\<close>, \<^verbatim>\<open>walk_uniq_contents1\<close>
  and \<^verbatim>\<open>walk_rptr_contents1\<close> of the absent header, "dereference once; recurse into
  pointee shape": a sub-walker at the same shape position and at the two pointees is
  handed to the \<^verbatim>\<open>walk_*_contents2\<close> of the operation. \<^verbatim>\<open>walk_box2\<close>,
  \<^verbatim>\<open>walk_uniq2\<close>, \<^verbatim>\<open>walk_rptr2\<close> and \<^verbatim>\<open>walk_trait2\<close> (lines 281-295) only
  call them, a trait as a box.\<close>

definition walk_contents1 :: "(cmp \<Rightarrow> cmp \<Rightarrow> cmp option) \<Rightarrow> (addr \<Rightarrow> addr) \<Rightarrow> cmp \<Rightarrow> cmp option" where
  "walk_contents1 contents2 target c =
     contents2 (cmp_sub_dp c (target (fst (dp c)), target (snd (dp c)))) c"

definition walk_ptr2 :: "ptr_kind \<Rightarrow> (cmp \<Rightarrow> cmp option) \<Rightarrow> (addr \<Rightarrow> addr) \<Rightarrow> cmp \<Rightarrow> cmp option" where
  "walk_ptr2 kind walk target c =
     (case kind of
        BoxPtr \<Rightarrow> walk_contents1 (walk_box_contents2 walk) target c
      | UniqPtr \<Rightarrow> walk_contents1 (walk_uniq_contents2 walk) target c
      | RPtr \<Rightarrow> walk_contents1 (walk_rptr_contents2 walk) target c
      | TraitPtr \<Rightarrow> walk_contents1 (walk_box_contents2 walk) target c)"

text \<open>Modelled from the spec: the skeleton's step for an indirection. The alignment
  rule is applied before the dereference, the pointee is compared from the pointee
  shape; then the shape cursor is at the end of the indirection's shape and the data
  cursors after the pointer.\<close>

definition walk_ptr0 :: "nat \<Rightarrow> (cmp \<Rightarrow> cmp option) \<Rightarrow> (addr \<Rightarrow> addr) \<Rightarrow> ptr_kind \<Rightarrow> addr \<Rightarrow> addr \<Rightarrow> cmp \<Rightarrow> cmp option" where
  "walk_ptr0 fuel walk target kind body end_sp c =
     (let c1 = ALIGN_TO ptr_size c
      in map_option
           (\<lambda>ca. ca\<lparr>sp := end_sp, dp := (fst (dp c1) + ptr_size, snd (dp c1) + ptr_size)\<rparr>)
           (walk_ptr2 kind walk target (c1\<lparr>sp := body\<rparr>)))"

text \<open>Modelled from the spec: the skeleton's step for a resource. \<^verbatim>\<open>walk_res2\<close>
  compares the two words; then the shape cursor is at the end of the resource's shape
  and the data cursors after the resource, trailing fields included, which the
  comparison does not read.\<close>

definition walk_res0 :: "memory \<Rightarrow> addr \<Rightarrow> addr \<Rightarrow> nat \<Rightarrow> cmp \<Rightarrow> cmp" where
  "walk_res0 m dtor end_sp rsz c =
     (let c1 = ALIGN_TO ptr_size c
      in (walk_res2 m dtor end_sp c)\<lparr>sp := end_sp, dp := (fst (dp c1) + rsz, snd (dp c1) + rsz)\<rparr>)"

text \<open>Modelled from the spec: \<^verbatim>\<open>walk()\<close> of the compare walker, the dispatch of
  the skeleton on the opcode at the shape cursor, to the operations of the file. The
  fuel bounds the depth of the recursion and the iterations of each loop; \<open>None\<close> is
  a walk that has not returned within it. A function, an object and a type descriptor
  are leaves: the operation reads the words and the shape cursor moves past the
  shape.\<close>

fun cmp_walk :: "reader \<Rightarrow> memory \<Rightarrow> nat \<Rightarrow> cmp \<Rightarrow> cmp option" where
  "cmp_walk R m 0 c = None"
| "cmp_walk R m (Suc n) c =
     (case decode R (sp c) of
        SHAPE_NUMBER k \<Rightarrow> Some (walk_number_kind m k c)
      | SHAPE_STRUCT body end_sp \<Rightarrow> walk_struct0 n (cmp_walk R m n) body end_sp c
      | SHAPE_TAG tinfo after \<Rightarrow>
          walk_tag0 n (cmp_walk R m n) m (variant_range R) (discr_size R) tinfo after c
      | SHAPE_VEC kind is_pod elt end_sp \<Rightarrow>
          walk_vec0 n (cmp_walk R m n) (vec_range R kind) (vec_sa R kind) is_pod elt end_sp c
      | SHAPE_PTR kind body end_sp \<Rightarrow>
          walk_ptr0 n (cmp_walk R m n) (pointee R kind) kind body end_sp c
      | SHAPE_FN after \<Rightarrow> Some ((walk_fn2 m c)\<lparr>sp := after\<rparr>)
      | SHAPE_OBJ after \<Rightarrow> Some ((walk_obj2 m c)\<lparr>sp := after\<rparr>)
      | SHAPE_TYDESC after \<Rightarrow> Some ((walk_tydesc2 m c)\<lparr>sp := after\<rparr>)
      | SHAPE_RES dtor end_sp \<Rightarrow> Some (walk_res0 m dtor end_sp (res_size R dtor) c))"

text \<open>The end of the shape that starts at a position of the shape stream, as the
  stream declares it.\<close>

definition shape_end :: "reader \<Rightarrow> addr \<Rightarrow> addr" where
  "shape_end R s =
     (case decode R s of
        SHAPE_NUMBER k \<Rightarrow> s + 1
      | SHAPE_STRUCT body end_sp \<Rightarrow> end_sp
      | SHAPE_TAG tinfo after \<Rightarrow> after
      | SHAPE_VEC kind is_pod elt end_sp \<Rightarrow> end_sp
      | SHAPE_PTR kind body end_sp \<Rightarrow> end_sp
      | SHAPE_FN after \<Rightarrow> after
      | SHAPE_OBJ after \<Rightarrow> after
      | SHAPE_TYDESC after \<Rightarrow> after
      | SHAPE_RES dtor end_sp \<Rightarrow> end_sp)"

subsection \<open>Well-formed instances\<close>

text \<open>\<open>pad_to\<close> is the alignment rule on one data cursor, \<open>num_size\<close> the size of
  a scalar, and \<open>nan_at\<close> tells whether the scalar of a number shape at an address is
  a floating-point NaN; \<open>nan_free\<close> is its negation.\<close>

definition pad_to :: "bool \<Rightarrow> nat \<Rightarrow> addr \<Rightarrow> addr" where
  "pad_to al n a = (if al then align_to a n else a)"

fun num_size :: "num_kind \<Rightarrow> nat" where
  "num_size U8 = 1" | "num_size U16 = 2" | "num_size U32 = 4" | "num_size U64 = 8"
| "num_size I8 = 1" | "num_size I16 = 2" | "num_size I32 = 4" | "num_size I64 = 8"
| "num_size F32 = 4" | "num_size F64 = 8"

definition nan_at :: "memory \<Rightarrow> num_kind \<Rightarrow> addr \<Rightarrow> bool" where
  "nan_at m k a =
     (case k of F32 \<Rightarrow> f32_is_nan (load_u32 m a) | F64 \<Rightarrow> f64_is_nan (load_u64 m a) | _ \<Rightarrow> False)"

definition nan_free :: "memory \<Rightarrow> num_kind \<Rightarrow> addr \<Rightarrow> bool" where
  "nan_free m k a = (\<not> nan_at m k a)"

text \<open>Modelled from the spec: a well-formed instance of a well-formed shape, by the
  traversal rules of the skeleton on one data cursor. \<open>wf_instance R m ok s al a s' al' a'\<close>
  says that the memory from address \<open>a\<close> on holds an instance of the shape at position
  \<open>s\<close>, alignment pending or not (\<open>al\<close>), that the shape ends at \<open>s'\<close> and the
  instance at \<open>a'\<close>, and that every scalar of it satisfies \<open>ok\<close>. A struct is its
  fields in order up to its declared end, alignment pending after the first; a tagged
  union is its discriminant and the fields of the variant that the discriminant selects
  in the side tables; a vector is its elements, each of the element shape, up to the end
  of its element range; an indirection is its pointee; a function and an object are
  two words, a type descriptor is one, and a resource has the size that goes with its
  destructor. The derivation is finite: an
  instance has finitely many fields and elements, of a size that lets the data cursor
  reach the end of the range, and its chain of indirections ends. With \<open>ok\<close> always
  true this is the well-formed instance of the spec; with \<open>nan_free m\<close> it is a
  well-formed instance none of whose floating-point scalars is a NaN.\<close>

inductive wf_instance :: "reader \<Rightarrow> memory \<Rightarrow> (num_kind \<Rightarrow> addr \<Rightarrow> bool) \<Rightarrow> addr \<Rightarrow> bool \<Rightarrow> addr \<Rightarrow> addr \<Rightarrow> bool \<Rightarrow> addr \<Rightarrow> bool"
  and wf_fields :: "reader \<Rightarrow> memory \<Rightarrow> (num_kind \<Rightarrow> addr \<Rightarrow> bool) \<Rightarrow> addr \<Rightarrow> addr \<Rightarrow> bool \<Rightarrow> addr \<Rightarrow> addr \<Rightarrow> bool \<Rightarrow> addr \<Rightarrow> bool"
  and wf_variant :: "reader \<Rightarrow> memory \<Rightarrow> (num_kind \<Rightarrow> addr \<Rightarrow> bool) \<Rightarrow> addr \<Rightarrow> addr \<Rightarrow> bool \<Rightarrow> addr \<Rightarrow> addr \<Rightarrow> bool \<Rightarrow> addr \<Rightarrow> bool"
  and wf_elements :: "reader \<Rightarrow> memory \<Rightarrow> (num_kind \<Rightarrow> addr \<Rightarrow> bool) \<Rightarrow> addr \<Rightarrow> addr \<Rightarrow> bool \<Rightarrow> addr \<Rightarrow> addr \<Rightarrow> bool \<Rightarrow> addr \<Rightarrow> bool"
  for R :: reader and m :: memory and ok :: "num_kind \<Rightarrow> addr \<Rightarrow> bool"
where
  wf_number:
    "decode R s = SHAPE_NUMBER k \<Longrightarrow> ok k (pad_to al (num_size k) a) \<Longrightarrow>
     wf_instance R m ok s al a (s + 1) al (pad_to al (num_size k) a + num_size k)"
| wf_struct:
    "decode R s = SHAPE_STRUCT body end_sp \<Longrightarrow> wf_fields R m ok end_sp body al a s' al' a' \<Longrightarrow>
     wf_instance R m ok s al a end_sp al' a'"
| wf_tag:
    "decode R s = SHAPE_TAG tinfo after \<Longrightarrow>
     variant_range R tinfo
       (load_le m (pad_to al (alignment (tag_sa tinfo)) a) (discr_size R)) = (vp, ve) \<Longrightarrow>
     wf_variant R m ok ve (if vp \<noteq> 0 then vp else after) al
       (pad_to al (alignment (tag_sa tinfo)) a + discr_size R) s' al' a' \<Longrightarrow>
     wf_instance R m ok s al a after al
       (pad_to al (alignment (tag_sa tinfo)) a + size_sa (tag_sa tinfo))"
| wf_vec:
    "decode R s = SHAPE_VEC kind is_pod elt end_sp \<Longrightarrow>
     vec_range R kind (pad_to al (alignment (vec_sa R kind)) a) = (b, e) \<Longrightarrow>
     wf_elements R m ok e elt al b s' al' a' \<Longrightarrow>
     wf_instance R m ok s al a end_sp al
       (pad_to al (alignment (vec_sa R kind)) a + size_sa (vec_sa R kind))"
| wf_ptr:
    "decode R s = SHAPE_PTR kind body end_sp \<Longrightarrow>
     wf_instance R m ok body True (pointee R kind (pad_to al ptr_size a)) s' al' a' \<Longrightarrow>
     wf_instance R m ok s al a end_sp al (pad_to al ptr_size a + ptr_size)"
| wf_fn:
    "decode R s = SHAPE_FN after \<Longrightarrow>
     wf_instance R m ok s al a after al (pad_to al ptr_size a + 2 * ptr_size)"
| wf_obj:
    "decode R s = SHAPE_OBJ after \<Longrightarrow>
     wf_instance R m ok s al a after al (pad_to al ptr_size a + 2 * ptr_size)"
| wf_tydesc:
    "decode R s = SHAPE_TYDESC after \<Longrightarrow>
     wf_instance R m ok s al a after al (pad_to al ptr_size a + ptr_size)"
| wf_res:
    "decode R s = SHAPE_RES dtor end_sp \<Longrightarrow>
     wf_instance R m ok s al a end_sp al (pad_to al ptr_size a + res_size R dtor)"
| wf_fields_end:
    "wf_fields R m ok end_sp end_sp al a end_sp al a"
| wf_fields_step:
    "s \<noteq> end_sp \<Longrightarrow> wf_instance R m ok s al a s1 al1 a1 \<Longrightarrow>
     wf_fields R m ok end_sp s1 True a1 s' al' a' \<Longrightarrow>
     wf_fields R m ok end_sp s al a s' al' a'"
| wf_variant_end:
    "\<not> s < variant_end \<Longrightarrow> wf_variant R m ok variant_end s al a s al a"
| wf_variant_step:
    "s < variant_end \<Longrightarrow> wf_instance R m ok s al a s1 al1 a1 \<Longrightarrow>
     wf_variant R m ok variant_end s1 True a1 s' al' a' \<Longrightarrow>
     wf_variant R m ok variant_end s al a s' al' a'"
| wf_elements_end:
    "\<not> a < data_end \<Longrightarrow> wf_elements R m ok data_end s al a s al a"
| wf_elements_step:
    "a < data_end \<Longrightarrow> wf_instance R m ok s al a s1 al1 a1 \<Longrightarrow>
     wf_elements R m ok data_end s True a1 s' al' a' \<Longrightarrow>
     wf_elements R m ok data_end s al a s' al' a'"

code_pred (modes:
    wf_instance: i \<Rightarrow> i \<Rightarrow> i \<Rightarrow> i \<Rightarrow> i \<Rightarrow> i \<Rightarrow> o \<Rightarrow> o \<Rightarrow> o \<Rightarrow> bool and
    wf_fields: i \<Rightarrow> i \<Rightarrow> i \<Rightarrow> i \<Rightarrow> i \<Rightarrow> i \<Rightarrow> i \<Rightarrow> o \<Rightarrow> o \<Rightarrow> o \<Rightarrow> bool and
    wf_variant: i \<Rightarrow> i \<Rightarrow> i \<Rightarrow> i \<Rightarrow> i \<Rightarrow> i \<Rightarrow> i \<Rightarrow> o \<Rightarrow> o \<Rightarrow> o \<Rightarrow> bool and
    wf_elements: i \<Rightarrow> i \<Rightarrow> i \<Rightarrow> i \<Rightarrow> i \<Rightarrow> i \<Rightarrow> i \<Rightarrow> o \<Rightarrow> o \<Rightarrow> o \<Rightarrow> bool)
  wf_instance .

text \<open>For the statements and proofs below. A walker \<open>starts_at\<close> a position when
  its shape cursor is there, both its data cursors are at the same address and its
  result is zero; \<open>moved\<close> is the walker with its cursors elsewhere. A computation
  that takes fuel \<open>returns\<close> a value when it does so for every fuel from some bound
  on; \<open>returns2\<close> is the same for a loop, whose iterations and whose walk each take
  fuel.\<close>

definition starts_at :: "cmp \<Rightarrow> addr \<Rightarrow> bool \<Rightarrow> addr \<Rightarrow> bool" where
  "starts_at c s al a = (sp c = s \<and> align c = al \<and> dp c = (a, a) \<and> result c = 0)"

definition moved :: "cmp \<Rightarrow> addr \<Rightarrow> bool \<Rightarrow> addr \<Rightarrow> cmp" where
  "moved c s al a = c\<lparr>sp := s, align := al, dp := (a, a)\<rparr>"

definition returns :: "(nat \<Rightarrow> 'a option) \<Rightarrow> 'a \<Rightarrow> bool" where
  "returns f r = (\<exists>n. \<forall>k\<ge>n. f k = Some r)"

definition returns2 :: "(nat \<Rightarrow> nat \<Rightarrow> 'a option) \<Rightarrow> 'a \<Rightarrow> bool" where
  "returns2 f r = (\<exists>n. \<forall>k\<ge>n. \<forall>j\<ge>n. f k j = Some r)"

text \<open>Concrete shapes and instances for the statements below. \<open>example_reader\<close>
  decodes at position 2 a struct of five fields, at positions 3 to 7: a \<^verbatim>\<open>u8\<close>, a
  vector of \<^verbatim>\<open>u8\<close> (element shape at 10, elements from address 48 to 50), a tagged
  union of size 8 and alignment 4 with a four-byte discriminant (the shape of each
  variant, one \<^verbatim>\<open>u8\<close>, at 20), a unique pointer to a \<^verbatim>\<open>u8\<close> (pointee shape at 30,
  pointee at address 60) and an \<^verbatim>\<open>f32\<close>; \<open>example_memory\<close> holds an instance of
  it at address 8. \<open>two_u8_reader\<close> decodes at position 2 a struct of two
  \<^verbatim>\<open>u8\<close> fields, at positions 3 and 4; \<open>two_u8_memory\<close> holds the instance
  \<open>[1, 5]\<close> at address 8 and the instance \<open>[2, 5]\<close> at address 10.
  \<open>f32_reader\<close> decodes an \<^verbatim>\<open>f32\<close> at every position, and \<open>nan_memory\<close> holds
  at address 0 the quiet NaN \<open>0x7FC00000\<close>.\<close>

definition example_reader :: reader where
  "example_reader =
     \<lparr>decode = (\<lambda>s. if s = 2 then SHAPE_STRUCT 3 8
                    else if s = 4 then SHAPE_VEC BoxedVec True 10 5
                    else if s = 5 then
                      SHAPE_TAG \<lparr>tag_id = 0, variant_count = 2, largest_variants_ptr = 0,
                                 tag_sa = set_sa 8 4\<rparr> 6
                    else if s = 6 then SHAPE_PTR UniqPtr 30 7
                    else if s = 7 then SHAPE_NUMBER F32
                    else SHAPE_NUMBER U8),
      variant_range = (\<lambda>tinfo v. (20, 21)),
      discr_size = 4,
      vec_range = (\<lambda>kind a. (48, 50)),
      vec_sa = (\<lambda>kind. set_sa 8 8),
      pointee = (\<lambda>kind a. 60),
      res_size = (\<lambda>dtor. 24)\<rparr>"

definition example_memory :: memory where
  "example_memory = mem_of [0, 0, 0, 0, 0, 0, 0, 0, 7]"

definition two_u8_reader :: reader where
  "two_u8_reader = example_reader\<lparr>decode := (\<lambda>s. if s = 2 then SHAPE_STRUCT 3 5 else SHAPE_NUMBER U8)\<rparr>"

definition two_u8_memory :: memory where
  "two_u8_memory = mem_of [0, 0, 0, 0, 0, 0, 0, 0, 1, 5, 2, 5]"

definition f32_reader :: reader where
  "f32_reader = example_reader\<lparr>decode := (\<lambda>s. SHAPE_NUMBER F32)\<rparr>"

definition nan_memory :: memory where
  "nan_memory = mem_of [0, 0, 0xC0, 0x7F]"

section \<open>Properties\<close>

subsection \<open>The entry point\<close>

text \<open>C1. \<^verbatim>\<open>shape_cmp_type\<close> applies the walk once, to the walker it builds from
  the descriptor and the two instances, and stores the boolean its mode selects: for
  \<open>CMP_EQ\<close> whether the result is zero, for \<open>CMP_LT\<close> whether it is negative, for
  \<open>CMP_LE\<close> whether it is at most zero. The walker returned is the one the single
  application of the walk produced.\<close>

theorem shape_cmp_type_maps_result:
  assumes "walk (cmp_new True (shape tydesc) (shape_tables tydesc) data_0 data_1) = Some c"
  shows "shape_cmp_type walk r tydesc data_0 data_1 CMP_EQ = Some (c, of_bool (result c = 0))
       \<and> shape_cmp_type walk r tydesc data_0 data_1 CMP_LT = Some (c, of_bool (result c < 0))
       \<and> shape_cmp_type walk r tydesc data_0 data_1 CMP_LE = Some (c, of_bool (result c \<le> 0))"
  using assms by (simp add: shape_cmp_type_def CMP_EQ_def CMP_LT_def CMP_LE_def)

theorem shape_cmp_type_maps_result_witness:
  "shape_cmp_type (walk_u8 (mem_of [3, 7]))
       9 \<lparr>shape = 0, shape_tables = 0\<rparr> 0 1 CMP_EQ
     = Some (\<lparr>sp = 1, tables = 0, align = True, dp = (1, 2), end_dp = (0, 0), result = - 1\<rparr>, 0)
   \<and> shape_cmp_type (walk_u8 (mem_of [3, 7]))
       9 \<lparr>shape = 0, shape_tables = 0\<rparr> 0 1 CMP_LT
     = Some (\<lparr>sp = 1, tables = 0, align = True, dp = (1, 2), end_dp = (0, 0), result = - 1\<rparr>, 1)
   \<and> shape_cmp_type (walk_u8 (mem_of [3, 7]))
       9 \<lparr>shape = 0, shape_tables = 0\<rparr> 0 1 CMP_LE
     = Some (\<lparr>sp = 1, tables = 0, align = True, dp = (1, 2), end_dp = (0, 0), result = - 1\<rparr>, 1)"
proof -
  have h: "walk_u8 (mem_of [3, 7])
             (cmp_new True (shape \<lparr>shape = 0, shape_tables = 0\<rparr>)
                (shape_tables \<lparr>shape = 0, shape_tables = 0\<rparr>) 0 1)
           = Some \<lparr>sp = 1, tables = 0, align = True, dp = (1, 2), end_dp = (0, 0), result = - 1\<rparr>"
    by (simp add: walk_u8_def walk_number1_def ALIGN_TO_def align_to_def walk_number2_def
        cmp_number_def get_dp_def load_u8_def cmp_new_def mem_of_def)
  show ?thesis
    using h shape_cmp_type_maps_result
            [of "walk_u8 (mem_of [3, 7])" "\<lparr>shape = 0, shape_tables = 0\<rparr>" 0 1 _ 9]
    by simp
qed

text \<open>C10. With a mode byte other than \<open>CMP_EQ\<close>, \<open>CMP_LT\<close> and \<open>CMP_LE\<close> (that
  is, other than 0, 1 and 2) no case of the \<^verbatim>\<open>switch\<close> is taken: the byte at
  \<^verbatim>\<open>*result\<close> keeps the value it had before the call, and the walk has run all
  the same (the walker returned is the walk's).\<close>

theorem shape_cmp_type_other_mode:
  assumes "cmp_type \<noteq> 0" and "cmp_type \<noteq> 1" and "cmp_type \<noteq> 2"
  shows "shape_cmp_type walk r tydesc data_0 data_1 cmp_type
         = map_option (\<lambda>c. (c, r))
             (walk (cmp_new True (shape tydesc) (shape_tables tydesc) data_0 data_1))"
  using assms
  by (simp add: shape_cmp_type_def CMP_EQ_def CMP_LT_def CMP_LE_def split: option.split)

theorem shape_cmp_type_other_mode_witness:
  "shape_cmp_type (walk_u8 (mem_of [3, 7]))
       9 \<lparr>shape = 0, shape_tables = 0\<rparr> 0 1 3
     = Some (\<lparr>sp = 1, tables = 0, align = True, dp = (1, 2), end_dp = (0, 0), result = - 1\<rparr>, 9)"
proof -
  have "shape_cmp_type (walk_u8 (mem_of [3, 7]))
          9 \<lparr>shape = 0, shape_tables = 0\<rparr> 0 1 3
        = map_option (\<lambda>c. (c, 9))
            (walk_u8 (mem_of [3, 7])
               (cmp_new True (shape \<lparr>shape = 0, shape_tables = 0\<rparr>)
                  (shape_tables \<lparr>shape = 0, shape_tables = 0\<rparr>) 0 1))"
    by (rule shape_cmp_type_other_mode) simp_all
  then show ?thesis
    by (simp add: walk_u8_def walk_number1_def ALIGN_TO_def align_to_def walk_number2_def
        cmp_number_def get_dp_def load_u8_def cmp_new_def mem_of_def)
qed

subsection \<open>Logging a byte vector\<close>

lemma show_base_hex_byte:
  assumes "n < 256"
  shows "show_base 16 n =
         (if n < 16 then [digit_char n] else [digit_char (n div 16), digit_char (n mod 16)])"
proof (cases "n < 16")
  case True
  then show ?thesis by (simp add: show_base.simps)
next
  case False
  with assms have "n div 16 < 16" by simp
  with False show ?thesis by (subst show_base.simps) (simp add: show_base.simps)
qed

lemma digit_char_0: "digit_char 0 = CHR ''0''"
  by code_simp

lemma escape_buf:
  assumes "width os = 0" and "hex os"
  shows "buf (escape ch os) = buf os @ render_byte ch"
    and "width (escape ch os) = 0" and "hex (escape ch os)"
proof -
  have "unat ch < 2 ^ LENGTH(8)" by (rule unsigned_less)
  then have n: "unat ch < 256" by simp
  show "buf (escape ch os) = buf os @ render_byte ch"
    using assms n
    by (simp add: escape_def render_byte_def put_def put_unsigned_def show_base_hex_byte
        digit_char_0)
  show "width (escape ch os) = 0"
    using assms by (simp add: escape_def put_def put_unsigned_def)
  show "hex (escape ch os)"
    using assms by (simp add: escape_def put_def put_unsigned_def)
qed

lemma walk_string2_loop_buf:
  "width os = 0 \<Longrightarrow> hex os \<Longrightarrow>
   buf (walk_string2_loop m b e os) = buf os @ concat (map (\<lambda>a. render_byte (m a)) [b..<e])
   \<and> width (walk_string2_loop m b e os) = 0 \<and> hex (walk_string2_loop m b e os)"
proof (induction m b e os rule: walk_string2_loop.induct)
  case (1 m subdp data_end os)
  show ?case
  proof (cases "subdp < data_end")
    case True
    have "buf (walk_string2_loop m (Suc subdp) data_end (escape (m subdp) os))
          = buf (escape (m subdp) os) @ concat (map (\<lambda>a. render_byte (m a)) [Suc subdp..<data_end])
        \<and> width (walk_string2_loop m (Suc subdp) data_end (escape (m subdp) os)) = 0
        \<and> hex (walk_string2_loop m (Suc subdp) data_end (escape (m subdp) os))"
      using "1.IH" [OF True] "1.prems" by (simp add: escape_buf)
    with True "1.prems" show ?thesis
      by (subst (1 2 3) walk_string2_loop.simps) (simp add: escape_buf upt_conv_Cons)
  next
    case False
    with "1.prems" show ?thesis by (subst (1 2 3) walk_string2_loop.simps) simp
  qed
qed

text \<open>C6, as the code has it. On a stream with no pending field width,
  \<^verbatim>\<open>walk_string2\<close> appends the separator, a double quote, the rendering of each
  byte of the vector in order, and a double quote. In the rendering of a byte
  (\<open>render_byte\<close>) newline, carriage return, tab, backslash and double quote are
  their two-character escapes, a printable byte is itself, a zero byte is nothing at
  all, and every other byte is \<open>\x\<close> and two hexadecimal digits. The vector
  \<open>A\<close>, newline, double quote renders as seven characters: double quote, \<open>A\<close>,
  backslash, \<open>n\<close>, backslash, double quote, double quote.\<close>

theorem walk_string2_renders:
  assumes "width (out lg) = 0"
  shows "buf (out (walk_string2 m (b, e) lg))
         = buf (out lg) @ prefix lg @ [CHR 0x22]
             @ concat (map (\<lambda>a. render_byte (m a)) [b..<e]) @ [CHR 0x22]"
  using assms by (simp add: walk_string2_def Let_def put_def walk_string2_loop_buf)

theorem walk_string2_renders_witness:
  "buf (out (walk_string2 (mem_of [0x41, 0x0A, 0x22]) (0, 3) (log_new True 0 0 ostream_new)))
   = [CHR 0x22, CHR ''A'', CHR 0x5C, CHR ''n'', CHR 0x5C, CHR 0x22, CHR 0x22]"
proof -
  have w: "width (out (log_new True 0 0 ostream_new)) = 0"
    by (simp add: log_new_def ostream_new_def)
  have r: "concat (map (\<lambda>a. render_byte (mem_of [0x41, 0x0A, 0x22] a)) [0..<3])
           = [CHR ''A'', CHR 0x5C, CHR ''n'', CHR 0x5C, CHR 0x22]"
    by code_simp
  show ?thesis
    using walk_string2_renders [OF w, of "mem_of [0x41, 0x0A, 0x22]" 0 3] r
    by (simp add: log_new_def ostream_new_def)
qed

text \<open>The claim as stated fails on the zero byte: it is not printable and not one of
  the five escaped bytes, yet the byte vector that holds it alone renders as two double
  quotes, not as \<open>"\x00"\<close> (the guard \<^verbatim>\<open>else if (ch)\<close> of line 396).\<close>

theorem walk_string2_zero_byte_dropped:
  "\<not> isprint 0
   \<and> buf (out (walk_string2 (mem_of [0]) (0, 1) (log_new True 0 0 ostream_new)))
       = [CHR 0x22, CHR 0x22]
   \<and> buf (out (walk_string2 (mem_of [0]) (0, 1) (log_new True 0 0 ostream_new)))
       \<noteq> [CHR 0x22, CHR 0x5C, CHR ''x'', CHR ''0'', CHR ''0'', CHR 0x22]"
  by code_simp

subsection \<open>Comparing resources\<close>

lemma load_le_cong:
  "(\<And>i. i < n \<Longrightarrow> m' (a + i) = m (a + i)) \<Longrightarrow> load_le m' a n = load_le m a n"
proof (induction n arbitrary: a)
  case 0
  then show ?case by simp
next
  case (Suc n)
  have "m' a = m a" using Suc.prems [of 0] by simp
  moreover have "load_le m' (Suc a) n = load_le m (Suc a) n"
  proof (rule Suc.IH)
    fix i assume "i < n"
    then show "m' (Suc a + i) = m (Suc a + i)" using Suc.prems [of "Suc i"] by simp
  qed
  ultimately show ?case by simp
qed

lemma cmp_two_pointers_eq:
  "cmp_two_pointers m c =
     (let p = dp (ALIGN_TO ptr_size c)
      in (ALIGN_TO ptr_size c)
           \<lparr>dp := (fst p + 2 * ptr_size, snd p + 2 * ptr_size),
            result := (if load_ptr m (fst p) \<noteq> load_ptr m (snd p)
                       then three_way (load_ptr m (fst p)) (load_ptr m (snd p))
                       else three_way (load_ptr m (fst p + ptr_size))
                              (load_ptr m (snd p + ptr_size)))\<rparr>)"
  by (simp add: cmp_two_pointers_def Let_def bump_dp_def get_dp_def cmp_number_def
      three_way_def add.assoc mult_2)

text \<open>C7. \<^verbatim>\<open>walk_res2\<close> compares the word pair at the data cursors and nothing
  else: the result is the comparison of the first words, and of the second words only
  when the first are equal; the shape cursor does not move, so no field of the resource
  is walked; the data cursors move past the two words; and the outcome is the same for
  every memory that agrees on those two words of each instance, whatever the trailing
  fields, the destructor and the end of the shape are.\<close>

theorem walk_res2_opaque_pair:
  fixes c :: cmp
  defines "p \<equiv> dp (ALIGN_TO ptr_size c)"
  assumes "\<forall>a. (fst p \<le> a \<and> a < fst p + 2 * ptr_size) \<or> (snd p \<le> a \<and> a < snd p + 2 * ptr_size)
               \<longrightarrow> m' a = m a"
  shows "result (walk_res2 m dtor end_sp c)
           = (if load_ptr m (fst p) \<noteq> load_ptr m (snd p)
              then three_way (load_ptr m (fst p)) (load_ptr m (snd p))
              else three_way (load_ptr m (fst p + ptr_size)) (load_ptr m (snd p + ptr_size)))
       \<and> sp (walk_res2 m dtor end_sp c) = sp c
       \<and> dp (walk_res2 m dtor end_sp c) = (fst p + 2 * ptr_size, snd p + 2 * ptr_size)
       \<and> walk_res2 m' dtor' end_sp' c = walk_res2 m dtor end_sp c"
proof -
  have l: "load_ptr m' (fst p) = load_ptr m (fst p)"
          "load_ptr m' (snd p) = load_ptr m (snd p)"
          "load_ptr m' (fst p + ptr_size) = load_ptr m (fst p + ptr_size)"
          "load_ptr m' (snd p + ptr_size) = load_ptr m (snd p + ptr_size)"
    unfolding load_ptr_def using assms(2)
    by (auto intro!: load_le_cong simp: ptr_size_def)
  have s: "sp (ALIGN_TO ptr_size c) = sp c"
    by (simp add: ALIGN_TO_def)
  show ?thesis
    using l s by (simp add: walk_res2_def cmp_two_pointers_eq Let_def p_def)
qed


lemma load_le_numeral:
  "load_le m a (numeral k) = unat (m a) + 256 * load_le m (Suc a) (pred_numeral k)"
  by (simp add: numeral_eq_Suc)

lemma load_res_memory:
  "load_ptr (res_memory t1 t2) 0 = 5" "load_ptr (res_memory t1 t2) 24 = 5"
  "load_ptr (res_memory t1 t2) 8 = 9" "load_ptr (res_memory t1 t2) 32 = 9"
  by (simp_all add: load_ptr_def ptr_size_def res_memory_def load_le_numeral)

theorem walk_res2_opaque_pair_witness:
  "result (walk_res2 (res_memory 1 2) 0 0 (cmp_new True 0 0 0 24)) = 0
   \<and> sp (walk_res2 (res_memory 1 2) 0 0 (cmp_new True 0 0 0 24)) = 0
   \<and> dp (walk_res2 (res_memory 1 2) 0 0 (cmp_new True 0 0 0 24)) = (16, 40)
   \<and> walk_res2 (res_memory 3 4) 7 7 (cmp_new True 0 0 0 24)
       = walk_res2 (res_memory 1 2) 0 0 (cmp_new True 0 0 0 24)"
proof -
  have p: "dp (ALIGN_TO ptr_size (cmp_new True 0 0 0 24)) = (0, 24)"
    by (simp add: ALIGN_TO_def cmp_new_def align_to_def ptr_size_def)
  have h: "\<forall>a. (fst (dp (ALIGN_TO ptr_size (cmp_new True 0 0 0 24))) \<le> a
                 \<and> a < fst (dp (ALIGN_TO ptr_size (cmp_new True 0 0 0 24))) + 2 * ptr_size)
              \<or> (snd (dp (ALIGN_TO ptr_size (cmp_new True 0 0 0 24))) \<le> a
                 \<and> a < snd (dp (ALIGN_TO ptr_size (cmp_new True 0 0 0 24))) + 2 * ptr_size)
              \<longrightarrow> res_memory 3 4 a = res_memory 1 2 a"
    unfolding p by (auto simp: res_memory_def ptr_size_def)
  show ?thesis
    using walk_res2_opaque_pair [OF h, of 0 0 7 7]
    unfolding p by (simp add: load_res_memory three_way_def cmp_new_def) (simp add: ptr_size_def load_res_memory)
qed

subsection \<open>The size of a tagged union\<close>

lemma variant_loop_struct:
  "variant_loop n walk e sub acc first = map_option sa (walk_struct1_loop n walk e sub acc first)"
  by (induction n arbitrary: sub acc first) (auto simp: Let_def split: option.split)

lemma variant_loop_size:
  "variant_loop fuel walk (snd (gv t v)) ((size_of_sub this (fst (gv t v)) 0)\<lparr>align := False\<rparr>)
     size_align_default True = variant_size fuel walk gv this t v"
  by (simp add: variant_loop_struct variant_size_def walk_struct1_def set_sa_def size_align_default_def)

lemma those_Cons_Some:
  "those (y # ys) = Some zs \<longleftrightarrow> (\<exists>v vs. y = Some v \<and> those ys = Some vs \<and> zs = v # vs)"
  by (auto split: option.splits)

lemma foldl_keep_largest_Cons:
  "foldl keep_largest b (v # vs) = foldl keep_largest (if size_sa b < size_sa v then v else b) vs"
  by (simp add: keep_largest_def)

lemma largest_variants_loop_fold:
  assumes gv: "\<And>t. tag_id t = tag_id t0 \<Longrightarrow> variant_count t = variant_count t0 \<Longrightarrow> gv t = gv t0"
  shows "tag_id tinfo = tag_id t0 \<Longrightarrow> variant_count tinfo = variant_count t0 \<Longrightarrow>
         those (map (variant_size fuel walk gv this t0) (table_ids m (largest_variants_ptr tinfo) k)) = Some sizes \<Longrightarrow>
         largest_variants_loop fuel m walk gv this k tinfo
         = Some (tinfo\<lparr>largest_variants_ptr := largest_variants_ptr tinfo + 2 * k,
                       tag_sa := foldl keep_largest (tag_sa tinfo) sizes\<rparr>)"
proof (induction k arbitrary: tinfo sizes)
  case 0
  then show ?case by simp
next
  case (Suc k)
  let ?id = "fst (get_u16_bump m (largest_variants_ptr tinfo))"
  let ?p = "snd (get_u16_bump m (largest_variants_ptr tinfo))"
  let ?t1 = "tinfo\<lparr>largest_variants_ptr := ?p\<rparr>"
  from Suc.prems(3) [unfolded table_ids.simps list.map those_Cons_Some] obtain v vs where
    v: "variant_size fuel walk gv this t0 ?id = Some v" and
    vs: "those (map (variant_size fuel walk gv this t0) (table_ids m ?p k)) = Some vs" and
    sizes: "sizes = v # vs"
    by blast
  have g1: "gv ?t1 = gv t0" using Suc.prems(1,2) by (intro gv) simp_all
  have vs1: "variant_size fuel walk gv this ?t1 ?id = variant_size fuel walk gv this t0 ?id"
    by (simp add: variant_size_def g1)
  let ?t2 = "if size_sa (tag_sa ?t1) < size_sa v then ?t1\<lparr>tag_sa := v\<rparr> else ?t1"
  have t2: "tag_id ?t2 = tag_id t0" "variant_count ?t2 = variant_count t0"
           "largest_variants_ptr ?t2 = ?p"
    using Suc.prems(1,2) by simp_all
  have IH: "largest_variants_loop fuel m walk gv this k ?t2
            = Some (?t2\<lparr>largest_variants_ptr := largest_variants_ptr ?t2 + 2 * k,
                          tag_sa := foldl keep_largest (tag_sa ?t2) vs\<rparr>)"
    using vs by (intro Suc.IH t2) (simp only: t2)
  have step: "largest_variants_loop fuel m walk gv this (Suc k) tinfo
              = largest_variants_loop fuel m walk gv this k ?t2"
    using v vs1 by (simp add: Let_def case_prod_beta variant_loop_size del: variant_loop.simps)
  show ?case
    unfolding step IH sizes
    by (simp add: get_u16_bump_def foldl_keep_largest_Cons del: foldl_Cons)
qed


lemma table_ids_length: "length (table_ids m p k) = k"
  by (induction k arbitrary: p) simp_all

lemma those_length: "those xs = Some ys \<Longrightarrow> length ys = length xs"
  by (induction xs arbitrary: ys) (auto split: option.splits)

lemma compute_tag_size_unset:
  assumes gv: "\<And>t. tag_id t = tag_id tinfo \<Longrightarrow> variant_count t = variant_count tinfo \<Longrightarrow> gv t = gv tinfo"
    and sizes: "those (map (variant_size fuel walk gv this tinfo)
                  (largest_variant_ids m (largest_variants_ptr tinfo))) = Some sizes"
    and unset: "\<not> is_set (tag_sa tinfo)"
  shows "compute_tag_size fuel m walk gv tag_size tag_align this tinfo
         = Some (tinfo\<lparr>largest_variants_ptr := largest_variants_ptr tinfo + 2 + 2 * length sizes,
                       tag_sa := (if variant_count tinfo = 1
                                  then (if size_sa (foldl keep_largest (set_sa 0 0) sizes) = 0
                                        then set_sa 1 1
                                        else foldl keep_largest (set_sa 0 0) sizes)
                                  else add_sa (foldl keep_largest (set_sa 0 0) sizes) tag_size tag_align)\<rparr>)"
proof -
  let ?n = "fst (get_u16_bump m (largest_variants_ptr tinfo))"
  let ?p = "snd (get_u16_bump m (largest_variants_ptr tinfo))"
  let ?t1 = "tinfo\<lparr>largest_variants_ptr := ?p, tag_sa := set_sa 0 0\<rparr>"
  have n: "length sizes = ?n"
    using those_length [OF sizes] by (simp add: largest_variant_ids_def table_ids_length)
  have "largest_variants_loop fuel m walk gv this ?n ?t1
        = Some (?t1\<lparr>largest_variants_ptr := largest_variants_ptr ?t1 + 2 * ?n,
                      tag_sa := foldl keep_largest (tag_sa ?t1) sizes\<rparr>)"
    using sizes
    by (intro largest_variants_loop_fold [where ?t0.0 = tinfo] gv)
       (simp_all add: largest_variant_ids_def)
  then show ?thesis
    using unset n
    by (simp add: compute_tag_size_def Let_def case_prod_beta get_u16_bump_def)
qed

lemma walk_struct1_loop_alignment:
  "walk_struct1_loop n walk e this acc first = Some r \<Longrightarrow> alignment acc \<le> alignment (sa r)"
proof (induction n arbitrary: this acc first)
  case 0
  then show ?case by (auto split: if_splits)
next
  case (Suc n)
  show ?case
  proof (cases "sp this \<noteq> e")
    case False
    with Suc.prems show ?thesis by auto
  next
    case True
    with Suc.prems obtain t1 where
      r: "walk_struct1_loop n walk e (t1\<lparr>align := True\<rparr>)
            (add_sa (if \<not> first
                     then acc\<lparr>size_sa := align_to (size_sa acc) (alignment (sa this))\<rparr>
                     else acc) (size_sa (sa t1)) (alignment (sa t1))) False = Some r"
      by (auto simp: Let_def split: option.splits)
    from Suc.IH [OF r] show ?thesis
      by (simp add: add_sa_def split: if_splits)
  qed
qed

lemma variant_size_alignment:
  "variant_size fuel walk gv this t v = Some s \<Longrightarrow> 1 \<le> alignment s"
  using walk_struct1_loop_alignment [of fuel walk _ _ "set_sa 0 1" True]
  by (auto simp: variant_size_def walk_struct1_def set_sa_def)

lemma those_map_set:
  "those (map f xs) = Some ys \<Longrightarrow> y \<in> set ys \<Longrightarrow> \<exists>x \<in> set xs. f x = Some y"
  by (induction xs arbitrary: ys) (auto split: option.splits)

lemma foldl_keep_largest_cases:
  "foldl keep_largest b vs = b \<or> foldl keep_largest b vs \<in> set vs"
proof (induction vs arbitrary: b)
  case Nil
  then show ?case by simp
next
  case (Cons v vs)
  from Cons.IH [of "keep_largest b v"] show ?case
    by (auto simp: keep_largest_def split: if_splits)
qed

lemma largest_is_set:
  assumes sizes: "those (map (variant_size fuel walk gv this t) ids) = Some sizes"
    and "size_sa (foldl keep_largest (set_sa 0 0) sizes) \<noteq> 0"
  shows "is_set (foldl keep_largest (set_sa 0 0) sizes)"
proof -
  from assms(2) foldl_keep_largest_cases [of "set_sa 0 0" sizes]
  have "foldl keep_largest (set_sa 0 0) sizes \<in> set sizes"
    by (auto simp: set_sa_def)
  from those_map_set [OF sizes this] obtain x where
    "variant_size fuel walk gv this t x = Some (foldl keep_largest (set_sa 0 0) sizes)"
    by blast
  from variant_size_alignment [OF this] show ?thesis
    by (simp add: is_set_def)
qed

text \<open>C3. \<^verbatim>\<open>compute_tag_size\<close> on a tagged union. If the pair in
  \<^verbatim>\<open>tinfo\<close> is set, it is returned as it is. Otherwise every id of the
  largest-variants table has its variant sized as a struct over its fields (the list
  \<open>sizes\<close>, in table order); starting from the empty pair, the strictly largest
  by size is kept; with exactly one variant, a size of zero is replaced by the pair
  (1, 1); with more than one variant, the size and alignment of the discriminant are
  combined on top of the largest payload by the combination rule (the payload's size
  padded to the discriminant's alignment, plus the discriminant's size; the larger of
  the two alignments); and the pair stored in \<^verbatim>\<open>tinfo\<close> is set, so that a
  second call returns it unchanged. The variant lookup is assumed to depend
  on the tag's identity only, each variant's sizing to return, and the alignment of the
  discriminant not to be zero.\<close>

theorem compute_tag_size_spec:
  assumes gv: "\<forall>t. tag_id t = tag_id tinfo \<and> variant_count t = variant_count tinfo
                   \<longrightarrow> get_variant_sp t = get_variant_sp tinfo"
    and sizes: "those (map (variant_size fuel walk get_variant_sp this tinfo)
                  (largest_variant_ids m (largest_variants_ptr tinfo))) = Some sizes"
    and tag_align: "0 < tag_align"
  shows "(is_set (tag_sa tinfo) \<longrightarrow>
            compute_tag_size fuel m walk get_variant_sp tag_size tag_align this tinfo = Some tinfo)
       \<and> (\<not> is_set (tag_sa tinfo) \<longrightarrow>
            (\<exists>t. compute_tag_size fuel m walk get_variant_sp tag_size tag_align this tinfo = Some t
               \<and> (variant_count tinfo = 1 \<longrightarrow>
                    tag_sa t = (if size_sa (foldl keep_largest (set_sa 0 0) sizes) = 0
                                then set_sa 1 1
                                else foldl keep_largest (set_sa 0 0) sizes))
               \<and> (1 < variant_count tinfo \<longrightarrow>
                    tag_sa t =
                      \<lparr>size_sa = align_to (size_sa (foldl keep_largest (set_sa 0 0) sizes)) tag_align
                                  + tag_size,
                       alignment = max (alignment (foldl keep_largest (set_sa 0 0) sizes)) tag_align\<rparr>)
               \<and> is_set (tag_sa t)
               \<and> compute_tag_size fuel m walk get_variant_sp tag_size tag_align this t = Some t))"
proof (intro conjI impI)
  assume "is_set (tag_sa tinfo)"
  then show "compute_tag_size fuel m walk get_variant_sp tag_size tag_align this tinfo = Some tinfo"
    by (simp add: compute_tag_size_def)
next
  assume unset: "\<not> is_set (tag_sa tinfo)"
  let ?best = "foldl keep_largest (set_sa 0 0) sizes"
  let ?t = "tinfo\<lparr>largest_variants_ptr := largest_variants_ptr tinfo + 2 + 2 * length sizes,
                   tag_sa := (if variant_count tinfo = 1
                              then (if size_sa ?best = 0 then set_sa 1 1 else ?best)
                              else add_sa ?best tag_size tag_align)\<rparr>"
  have c: "compute_tag_size fuel m walk get_variant_sp tag_size tag_align this tinfo = Some ?t"
    using gv by (intro compute_tag_size_unset sizes unset) blast
  have s: "is_set (tag_sa ?t)"
    using tag_align largest_is_set [OF sizes]
    by (auto simp: is_set_def set_sa_def add_sa_def)
  have again: "compute_tag_size fuel m walk get_variant_sp tag_size tag_align this ?t = Some ?t"
    using s by (simp add: compute_tag_size_def)
  show "\<exists>t. compute_tag_size fuel m walk get_variant_sp tag_size tag_align this tinfo = Some t
          \<and> (variant_count tinfo = 1 \<longrightarrow>
                tag_sa t = (if size_sa ?best = 0 then set_sa 1 1 else ?best))
          \<and> (1 < variant_count tinfo \<longrightarrow>
                tag_sa t = \<lparr>size_sa = align_to (size_sa ?best) tag_align + tag_size,
                            alignment = max (alignment ?best) tag_align\<rparr>)
          \<and> is_set (tag_sa t)
          \<and> compute_tag_size fuel m walk get_variant_sp tag_size tag_align this t = Some t"
    using c s again by (intro exI [of _ ?t]) (simp add: add_sa_def)
qed


lemma two_variants_const:
  "\<forall>t. tag_id t = tag_id tinfo \<and> variant_count t = variant_count tinfo
       \<longrightarrow> two_variants t = two_variants tinfo"
  by (simp add: two_variants_def fun_eq_iff)

theorem compute_tag_size_spec_witness:
  "\<exists>t. compute_tag_size 2 (mem_of [2, 0, 0, 0, 1, 0])
          (walk_fields [set_sa 0 1, set_sa 1 1, set_sa 0 1, set_sa 0 1]) two_variants 4 4
          \<lparr>sp = 0, tables = 0, align = False, sa = size_align_default\<rparr>
          \<lparr>tag_id = 0, variant_count = 2, largest_variants_ptr = 0, tag_sa = set_sa 0 0\<rparr> = Some t
      \<and> tag_sa t = \<lparr>size_sa = 8, alignment = 4\<rparr>
      \<and> is_set (tag_sa t)
      \<and> compute_tag_size 2 (mem_of [2, 0, 0, 0, 1, 0])
          (walk_fields [set_sa 0 1, set_sa 1 1, set_sa 0 1, set_sa 0 1]) two_variants 4 4
          \<lparr>sp = 0, tables = 0, align = False, sa = size_align_default\<rparr> t = Some t"
proof -
  let ?tinfo = "\<lparr>tag_id = 0, variant_count = 2, largest_variants_ptr = 0, tag_sa = set_sa 0 0\<rparr>"
  have sizes: "those (map (variant_size 2 (walk_fields [set_sa 0 1, set_sa 1 1, set_sa 0 1, set_sa 0 1])
                       two_variants \<lparr>sp = 0, tables = 0, align = False, sa = size_align_default\<rparr> ?tinfo)
                 (largest_variant_ids (mem_of [2, 0, 0, 0, 1, 0]) (largest_variants_ptr ?tinfo)))
               = Some [\<lparr>size_sa = 1, alignment = 1\<rparr>, \<lparr>size_sa = 0, alignment = 1\<rparr>]"
    by code_simp
  have unset: "\<not> is_set (tag_sa ?tinfo)"
    by (simp add: is_set_def set_sa_def)
  have best: "foldl keep_largest (set_sa 0 0)
                 [\<lparr>size_sa = 1, alignment = 1\<rparr>, \<lparr>size_sa = 0, alignment = 1\<rparr>]
              = \<lparr>size_sa = 1, alignment = 1\<rparr>"
    by (simp add: keep_largest_def set_sa_def)
  have pad: "align_to 1 4 + 4 = 8"
    by (simp add: align_to_def)
  show ?thesis
    using compute_tag_size_spec [OF two_variants_const sizes, of 4 4] unset best pad
    by simp
qed


text \<open>C9. For a tagged union with a single variant whose payload, sized as a struct
  over its fields, has a size other than zero, the size-of walker returns the payload's
  pair exactly: the pair (1, 1) is not forced and no room for the discriminant is
  added.\<close>

theorem walk_tag1_single_variant:
  assumes gv: "\<forall>t. tag_id t = tag_id tinfo \<and> variant_count t = variant_count tinfo
                   \<longrightarrow> get_variant_sp t = get_variant_sp tinfo"
    and one: "variant_count tinfo = 1"
    and unset: "\<not> is_set (tag_sa tinfo)"
    and ids: "largest_variant_ids m (largest_variants_ptr tinfo) = [variant_id]"
    and payload: "variant_size fuel walk get_variant_sp this tinfo variant_id = Some payload"
    and nonzero: "size_sa payload \<noteq> 0"
  shows "\<exists>t. walk_tag1 fuel m walk get_variant_sp tag_size tag_align this tinfo
               = Some (this\<lparr>sa := payload\<rparr>, t)
             \<and> tag_sa t = payload"
proof -
  have sizes: "those (map (variant_size fuel walk get_variant_sp this tinfo)
                 (largest_variant_ids m (largest_variants_ptr tinfo))) = Some [payload]"
    using ids payload by simp
  have best: "foldl keep_largest (set_sa 0 0) [payload] = payload"
    using nonzero by (simp add: keep_largest_def set_sa_def)
  have gv': "\<And>t. tag_id t = tag_id tinfo \<Longrightarrow> variant_count t = variant_count tinfo
                 \<Longrightarrow> get_variant_sp t = get_variant_sp tinfo"
    using gv by blast
  note c = compute_tag_size_unset [OF gv' sizes unset, where tag_size = tag_size and tag_align = tag_align]
  have "compute_tag_size fuel m walk get_variant_sp tag_size tag_align this tinfo
        = Some (tinfo\<lparr>largest_variants_ptr := largest_variants_ptr tinfo + 2 + 2 * length [payload],
                      tag_sa := payload\<rparr>)"
    using c one nonzero best by simp
  then show ?thesis
    by (simp add: walk_tag1_def)
qed

theorem walk_tag1_single_variant_witness:
  "\<exists>t. walk_tag1 2 (mem_of [1, 0, 1, 0])
          (walk_fields [set_sa 0 1, set_sa 4 4, set_sa 4 4, set_sa 4 4]) two_variants 4 4
          \<lparr>sp = 0, tables = 0, align = False, sa = size_align_default\<rparr>
          \<lparr>tag_id = 0, variant_count = 1, largest_variants_ptr = 0, tag_sa = set_sa 0 0\<rparr>
        = Some (\<lparr>sp = 0, tables = 0, align = False, sa = \<lparr>size_sa = 8, alignment = 4\<rparr>\<rparr>, t)
      \<and> tag_sa t = \<lparr>size_sa = 8, alignment = 4\<rparr>"
proof -
  let ?tinfo = "\<lparr>tag_id = 0, variant_count = 1, largest_variants_ptr = 0, tag_sa = set_sa 0 0\<rparr>"
  let ?so = "\<lparr>sp = 0, tables = 0, align = False, sa = size_align_default\<rparr>"
  have one: "variant_count ?tinfo = 1" by simp
  have unset: "\<not> is_set (tag_sa ?tinfo)"
    by (simp add: is_set_def set_sa_def)
  have ids: "largest_variant_ids (mem_of [1, 0, 1, 0]) (largest_variants_ptr ?tinfo) = [1]"
    by code_simp
  have payload: "variant_size 2 (walk_fields [set_sa 0 1, set_sa 4 4, set_sa 4 4, set_sa 4 4])
                   two_variants ?so ?tinfo 1 = Some \<lparr>size_sa = 8, alignment = 4\<rparr>"
    by code_simp
  have nonzero: "size_sa \<lparr>size_sa = 8, alignment = 4\<rparr> \<noteq> 0" by simp
  show ?thesis
    using walk_tag1_single_variant [OF two_variants_const one unset ids payload nonzero, of 4 4]
    by simp
qed


subsection \<open>The size of a struct\<close>

lemma align_to_0: "align_to 0 a = 0"
  by (cases a) (simp_all add: align_to_def)

lemma align_to_multiple: "a dvd sz \<Longrightarrow> align_to sz a = sz"
proof (cases a)
  case 0
  assume "a dvd sz"
  with 0 show ?thesis by (simp add: align_to_def)
next
  case (Suc b)
  assume "a dvd sz"
  then obtain k where k: "sz = Suc b * k" using Suc by (auto simp: dvd_def)
  have e: "sz + Suc b - 1 = b + k * Suc b"
    using k by simp
  have "(b + k * Suc b) div Suc b = k + b div Suc b"
    by (rule div_mult_self1) simp
  then have d: "(b + k * Suc b) div Suc b = k"
    by simp
  have "align_to sz a = k * Suc b"
    unfolding align_to_def Suc e d ..
  then show ?thesis
    using k by simp
qed

text \<open>What \<^verbatim>\<open>walk_struct1\<close> computes for a struct of two fields. Before it
  reads the second field, line 148 pads the running size to the alignment of the
  first field, the one the previous \<^verbatim>\<open>walk()\<close> left in \<open>sa\<close>; the
  combination rule then pads it to the alignment of the second.\<close>

lemma walk_struct1_two_fields:
  assumes "sp this \<noteq> e" and "walk this = Some t1" and "sp t1 \<noteq> e"
    and "walk (t1\<lparr>align := True\<rparr>) = Some t2" and "sp t2 = e"
  shows "walk_struct1 (Suc (Suc n)) walk e this
         = Some (t2\<lparr>align := True,
                     sa := \<lparr>size_sa = align_to (align_to (size_sa (sa t1)) (alignment (sa t1)))
                                         (alignment (sa t2)) + size_sa (sa t2),
                            alignment = max (max 1 (alignment (sa t1))) (alignment (sa t2))\<rparr>\<rparr>)"
  using assms
  by (cases n) (simp_all add: walk_struct1_def set_sa_def add_sa_def align_to_0 Let_def)

lemma walk_struct1_walk_fields:
  "map_option sa
     (walk_struct1 2 (walk_fields [set_sa s1 a1, set_sa s2 a2]) 2
        \<lparr>sp = 0, tables = 0, align = False, sa = size_align_default\<rparr>)
   = Some \<lparr>size_sa = align_to (align_to s1 a1) a2 + s2, alignment = max (max 1 a1) a2\<rparr>"
  by (simp add: walk_struct1_def walk_fields_def set_sa_def add_sa_def size_align_default_def
      align_to_0 Let_def numeral_2_eq_2)

text \<open>C4. Appending the pairs \<open>(s1, a1)\<close> and \<open>(s2, a2)\<close> in order to the
  accumulator (0, 1) under the combination rule yields the size \<open>align_to s1 a2 + s2\<close>
  and the largest of the alignments, the accumulator's 1 among them: \<open>max a1 a2\<close> as
  soon as one of the two is at least 1. \<^verbatim>\<open>walk_struct1\<close> over two fields with these
  pairs, which also pads the running size to the alignment of the field it has just
  read, returns the same alignment and the size \<open>align_to (align_to s1 a1) a2 + s2\<close>;
  this is \<open>align_to s1 a2 + s2\<close> whenever \<open>s1\<close> is a multiple of \<open>a1\<close>, as on
  the struct of a \<^verbatim>\<open>u8\<close> and a \<^verbatim>\<open>u32\<close>, whose pair is (8, 4).\<close>

theorem walk_struct1_combination:
  "add_sa (add_sa (set_sa 0 1) s1 a1) s2 a2
     = \<lparr>size_sa = align_to s1 a2 + s2, alignment = max (max 1 a1) a2\<rparr>
   \<and> map_option sa
       (walk_struct1 2 (walk_fields [set_sa s1 a1, set_sa s2 a2]) 2
          \<lparr>sp = 0, tables = 0, align = False, sa = size_align_default\<rparr>)
     = Some \<lparr>size_sa = align_to (align_to s1 a1) a2 + s2, alignment = max (max 1 a1) a2\<rparr>
   \<and> (0 < a1 \<or> 0 < a2 \<longrightarrow> max (max 1 a1) a2 = max a1 a2)
   \<and> (a1 dvd s1 \<longrightarrow>
        map_option sa
          (walk_struct1 2 (walk_fields [set_sa s1 a1, set_sa s2 a2]) 2
             \<lparr>sp = 0, tables = 0, align = False, sa = size_align_default\<rparr>)
        = Some \<lparr>size_sa = align_to s1 a2 + s2, alignment = max (max 1 a1) a2\<rparr>)"
proof -
  have rule: "add_sa (add_sa (set_sa 0 1) s1 a1) s2 a2
              = \<lparr>size_sa = align_to s1 a2 + s2, alignment = max (max 1 a1) a2\<rparr>"
    by (simp add: add_sa_def set_sa_def align_to_0)
  have code: "map_option sa
                (walk_struct1 2 (walk_fields [set_sa s1 a1, set_sa s2 a2]) 2
                   \<lparr>sp = 0, tables = 0, align = False, sa = size_align_default\<rparr>)
              = Some \<lparr>size_sa = align_to (align_to s1 a1) a2 + s2,
                       alignment = max (max 1 a1) a2\<rparr>"
    by (rule walk_struct1_walk_fields)
  have least: "0 < a1 \<or> 0 < a2 \<Longrightarrow> max (max 1 a1) a2 = max a1 a2"
    by auto
  have same: "a1 dvd s1 \<Longrightarrow> align_to (align_to s1 a1) a2 = align_to s1 a2"
    by (simp add: align_to_multiple)
  show ?thesis
    using rule code least same by (intro conjI impI) simp_all
qed

theorem walk_struct1_combination_witness:
  "map_option sa
     (walk_struct1 2 (walk_fields [set_sa 1 1, set_sa 4 4]) 2
        \<lparr>sp = 0, tables = 0, align = False, sa = size_align_default\<rparr>)
   = Some \<lparr>size_sa = 8, alignment = 4\<rparr>
   \<and> add_sa (add_sa (set_sa 0 1) 1 1) 4 4 = \<lparr>size_sa = 8, alignment = 4\<rparr>"
proof -
  have pad: "align_to 1 4 + 4 = 8"
    by (simp add: align_to_def)
  show ?thesis
    using walk_struct1_combination [of 1 1 4 4] pad by simp
qed

text \<open>The struct of a \<^verbatim>\<open>u32\<close> and a \<^verbatim>\<open>u8\<close> has the pair (5, 4). As the
  first field of a struct whose second field is a \<^verbatim>\<open>u8\<close>, the pairs (5, 4) and
  (1, 1), it is padded to 8 before the second field is added: the size is 9, where
  \<open>align_to 5 1 + 1\<close> is 6.\<close>

theorem walk_struct1_pads_previous_field:
  "map_option sa
     (walk_struct1 2 (walk_fields [set_sa 4 4, set_sa 1 1]) 2
        \<lparr>sp = 0, tables = 0, align = False, sa = size_align_default\<rparr>)
   = Some \<lparr>size_sa = 5, alignment = 4\<rparr>
   \<and> map_option sa
       (walk_struct1 2 (walk_fields [set_sa 5 4, set_sa 1 1]) 2
          \<lparr>sp = 0, tables = 0, align = False, sa = size_align_default\<rparr>)
     = Some \<lparr>size_sa = 9, alignment = 4\<rparr>
   \<and> map_option sa
       (walk_struct1 2 (walk_fields [set_sa 5 4, set_sa 1 1]) 2
          \<lparr>sp = 0, tables = 0, align = False, sa = size_align_default\<rparr>)
     \<noteq> Some \<lparr>size_sa = align_to 5 1 + 1, alignment = max 4 1\<rparr>"
  by (simp add: walk_struct1_walk_fields align_to_def)

subsection \<open>The result once decided, and the shape cursor\<close>

text \<open>Once the result is not zero, the loops of \<^verbatim>\<open>walk_struct2\<close> and
  \<^verbatim>\<open>walk_variant2\<close> walk nothing more.\<close>

lemma walk_struct2_decided:
  "result c \<noteq> 0 \<Longrightarrow> walk_struct2 fuel walk end_sp c = Some c"
  by (cases fuel) simp_all

lemma walk_variant2_loop_decided:
  "result c \<noteq> 0 \<Longrightarrow> walk_variant2_loop fuel walk variant_end c sub = Some (c, sub)"
  by (cases fuel) simp_all

lemma walk_variant2_decided:
  "result c \<noteq> 0 \<Longrightarrow> walk_variant2 fuel walk tinfo variant_id variant_ptr_and_end c = Some c"
  by (simp add: walk_variant2_def walk_variant2_loop_decided)

lemma walk_struct2_end:
  "walk_struct2 fuel walk end_sp c = Some c' \<Longrightarrow> result c' \<noteq> 0 \<or> sp c' = end_sp"
  by (induction fuel arbitrary: c) (auto split: if_splits option.splits)

lemma walk_variant2_loop_frame:
  "walk_variant2_loop fuel walk variant_end c sub = Some (c', sub') \<Longrightarrow> c' = c\<lparr>result := result c'\<rparr>"
proof (induction fuel arbitrary: c sub)
  case 0
  then show ?case by (auto split: if_splits)
next
  case (Suc fuel)
  show ?case
  proof (cases "result c = 0 \<and> sp sub < variant_end")
    case False
    with Suc.prems show ?thesis by auto
  next
    case True
    with Suc.prems obtain sub1 where
      "walk_variant2_loop fuel walk variant_end (c\<lparr>result := result sub1\<rparr>)
         (sub1\<lparr>align := True\<rparr>) = Some (c', sub')"
      by (auto split: option.splits)
    from Suc.IH [OF this] show ?thesis
      by (metis cmp.surjective cmp.update_convs(3))
  qed
qed

lemma walk_variant2_frame:
  "walk_variant2 fuel walk tinfo variant_id variant_ptr_and_end c = Some c'
   \<Longrightarrow> c' = c\<lparr>result := result c'\<rparr>"
  by (auto simp: walk_variant2_def dest: walk_variant2_loop_frame)

text \<open>One iteration of each loop, and the shape cursor after each step of the
  skeleton.\<close>

lemma sp_walk_number1: "sp (walk_number1 lt eq load sz c) = sp c + 1"
  by (simp add: walk_number1_def walk_number2_def cmp_number_def ALIGN_TO_def Let_def)

lemma sp_walk_number_kind: "sp (walk_number_kind m k c) = sp c + 1"
  by (cases k) (simp_all add: walk_number_kind_def sp_walk_number1)

lemma walk_struct0_sp: "walk_struct0 fuel walk body end_sp c = Some cb \<Longrightarrow> sp cb = end_sp"
  by (auto simp: walk_struct0_def)

lemma walk_tag0_sp:
  "walk_tag0 fuel walk m get_variant_sp tag_size tinfo after c = Some cb \<Longrightarrow> sp cb = after"
  by (auto simp: walk_tag0_def Let_def split: prod.splits)

lemma walk_vec0_sp:
  "walk_vec0 fuel walk get_range rep is_pod elt end_sp c = Some cb \<Longrightarrow> sp cb = end_sp"
  by (auto simp: walk_vec0_def Let_def)

lemma walk_res0_sp: "sp (walk_res0 m dtor end_sp rsz c) = end_sp"
  by (simp add: walk_res0_def Let_def)

lemma walk_ptr0_sp:
  "walk_ptr0 fuel walk target kind body end_sp c = Some cb \<Longrightarrow> sp cb = end_sp"
  by (auto simp: walk_ptr0_def Let_def)

lemma cmp_walk_sp: "cmp_walk R m n c = Some ca \<Longrightarrow> sp ca = shape_end R (sp c)"
proof (cases n)
  case 0
  assume "cmp_walk R m n c = Some ca"
  with 0 show ?thesis by simp
next
  case (Suc k)
  assume "cmp_walk R m n c = Some ca"
  with Suc show ?thesis
    by (cases "decode R (sp c)")
       (auto simp: shape_end_def sp_walk_number_kind walk_res0_sp dest: walk_struct0_sp
          walk_tag0_sp walk_vec0_sp walk_ptr0_sp)
qed

lemma walk_struct2_step:
  "result c = 0 \<Longrightarrow> sp c \<noteq> end_sp \<Longrightarrow> walk c = Some ca \<Longrightarrow>
   walk_struct2 (Suc fuel) walk end_sp c
   = (if result ca \<noteq> 0 then Some (ca\<lparr>align := True\<rparr>)
      else walk_struct2 fuel walk end_sp (ca\<lparr>align := True\<rparr>))"
  by (simp add: walk_struct2_decided)

lemma walk_variant2_loop_step:
  "result c = 0 \<Longrightarrow> sp sub < variant_end \<Longrightarrow> walk sub = Some sf \<Longrightarrow>
   walk_variant2_loop (Suc fuel) walk variant_end c sub
   = (if result sf \<noteq> 0 then Some (c\<lparr>result := result sf\<rparr>, sf\<lparr>align := True\<rparr>)
      else walk_variant2_loop fuel walk variant_end (c\<lparr>result := result sf\<rparr>) (sf\<lparr>align := True\<rparr>))"
  by (simp add: walk_variant2_loop_decided)

lemma walk_variant2_deciding_field:
  "result c = 0 \<Longrightarrow> sp (cmp_sub c (fst vpe) 0) < snd vpe \<Longrightarrow>
   walk (cmp_sub c (fst vpe) 0) = Some sf \<Longrightarrow> result sf \<noteq> 0 \<Longrightarrow>
   walk_variant2 (Suc fuel) walk tinfo variant_id vpe c = Some (c\<lparr>result := result sf\<rparr>)"
  by (simp add: walk_variant2_def walk_variant2_loop_decided)

text \<open>C5. Once the running result is not zero, \<^verbatim>\<open>walk_struct2\<close> and the loop of
  \<^verbatim>\<open>walk_variant2\<close> return at once, without another walk, so that no later
  comparison changes the result. From a result of zero each loop walks one field: if the
  field leaves a result other than zero, the loop returns right after it with that
  result, and otherwise it goes on with the next field. \<^verbatim>\<open>walk_variant2\<close> moves
  the cursors of a sub-walker only, so the walker it is called on keeps its cursors;
  \<^verbatim>\<open>walk_struct2\<close> leaves the shape cursor where the last field it walked
  ended, which is the end of the struct whenever the result is zero. The skeleton's
  step for a struct then puts the shape cursor at the declared end of the struct,
  decided or not; and a whole compare walk, whatever the data and whatever the result,
  ends with the shape cursor at the end of the shape it started on. So two walks that
  start at the same shape position end at the same shape position, over any two pairs
  of instances: a comparison leaves the shape cursor for the next one where it would
  have been had the result not been decided.\<close>

theorem compare_result_sticky_cursor_same:
  "(result c \<noteq> 0 \<longrightarrow> walk_struct2 fuel walk end_sp c = Some c)
   \<and> (result c \<noteq> 0 \<longrightarrow> walk_variant2_loop fuel walk variant_end c sub = Some (c, sub))
   \<and> (result c \<noteq> 0 \<longrightarrow> walk_variant2 fuel walk tinfo variant_id vpe c = Some c)
   \<and> (result c = 0 \<and> sp c \<noteq> end_sp \<and> walk c = Some ca \<longrightarrow>
        walk_struct2 (Suc fuel) walk end_sp c
        = (if result ca \<noteq> 0 then Some (ca\<lparr>align := True\<rparr>)
           else walk_struct2 fuel walk end_sp (ca\<lparr>align := True\<rparr>)))
   \<and> (result c = 0 \<and> sp sub < variant_end \<and> walk sub = Some sf \<longrightarrow>
        walk_variant2_loop (Suc fuel) walk variant_end c sub
        = (if result sf \<noteq> 0 then Some (c\<lparr>result := result sf\<rparr>, sf\<lparr>align := True\<rparr>)
           else walk_variant2_loop fuel walk variant_end (c\<lparr>result := result sf\<rparr>)
                  (sf\<lparr>align := True\<rparr>)))
   \<and> (result c = 0 \<and> sp (cmp_sub c (fst vpe) 0) < snd vpe
        \<and> walk (cmp_sub c (fst vpe) 0) = Some sb \<and> result sb \<noteq> 0 \<longrightarrow>
        walk_variant2 (Suc fuel) walk tinfo variant_id vpe c = Some (c\<lparr>result := result sb\<rparr>))
   \<and> (walk_variant2 fuel walk tinfo variant_id vpe c = Some cc \<longrightarrow> cc = c\<lparr>result := result cc\<rparr>)
   \<and> (walk_struct2 fuel walk end_sp c = Some cb \<and> result cb = 0 \<longrightarrow> sp cb = end_sp)
   \<and> (walk_struct0 fuel walk body end_sp c = Some cd \<longrightarrow> sp cd = end_sp)
   \<and> (cmp_walk R m n c = Some ce \<longrightarrow> sp ce = shape_end R (sp c))
   \<and> (cmp_walk R m n c = Some ce \<and> cmp_walk R m' n' d = Some de \<and> sp d = sp c \<longrightarrow> sp de = sp ce)"
proof -
  have ind: "cmp_walk R m n c = Some ce \<and> cmp_walk R m' n' d = Some de \<and> sp d = sp c \<longrightarrow> sp de = sp ce"
    using cmp_walk_sp [of R m n c ce] cmp_walk_sp [of R m' n' d de] by simp
  show ?thesis
    using walk_struct2_decided [of c fuel walk end_sp]
      walk_variant2_loop_decided [of c fuel walk variant_end sub]
      walk_variant2_decided [of c fuel walk tinfo variant_id vpe]
      walk_struct2_step [of c end_sp walk ca fuel]
      walk_variant2_loop_step [of c sub variant_end walk sf fuel]
      walk_variant2_deciding_field [of c vpe walk sb fuel tinfo variant_id]
      walk_variant2_frame [of fuel walk tinfo variant_id vpe c cc]
      walk_struct2_end [of fuel walk end_sp c cb]
      walk_struct0_sp [of fuel walk body end_sp c cd]
      cmp_walk_sp [of R m n c ce] ind
    by blast
qed

text \<open>The struct of two \<^verbatim>\<open>u8\<close> fields, on the instances \<open>[1, 5]\<close> and
  \<open>[2, 5]\<close>, where the first field decides, and on \<open>[1, 5]\<close> against itself.\<close>

lemma two_u8_decode:
  "decode two_u8_reader 2 = SHAPE_STRUCT 3 5"
  "decode two_u8_reader 3 = SHAPE_NUMBER U8"
  "decode two_u8_reader 4 = SHAPE_NUMBER U8"
  by (simp_all add: two_u8_reader_def)

lemma two_u8_decided:
  "cmp_walk two_u8_reader two_u8_memory (Suc (Suc (Suc 0))) (cmp_new True 2 0 8 10)
   = Some \<lparr>sp = 5, tables = 0, align = True, dp = (9, 11), end_dp = (0, 0), result = - 1\<rparr>"
  by (simp add: two_u8_decode walk_struct0_def walk_number_kind_def walk_number1_def ALIGN_TO_def
      align_to_def walk_number2_def cmp_number_def get_dp_def load_u8_def cmp_new_def
      two_u8_memory_def mem_of_def)

lemma two_u8_tied:
  "cmp_walk two_u8_reader two_u8_memory (Suc (Suc (Suc 0))) (cmp_new True 2 0 8 8)
   = Some \<lparr>sp = 5, tables = 0, align = True, dp = (10, 10), end_dp = (0, 0), result = 0\<rparr>"
  by (simp add: two_u8_decode walk_struct0_def walk_number_kind_def walk_number1_def ALIGN_TO_def
      align_to_def walk_number2_def cmp_number_def get_dp_def load_u8_def cmp_new_def
      two_u8_memory_def mem_of_def)

theorem compare_result_sticky_cursor_same_witness:
  "walk_struct2 1 (walk_u8 (mem_of [1, 5, 2, 5])) 2
     \<lparr>sp = 1, tables = 0, align = True, dp = (1, 3), end_dp = (0, 0), result = - 1\<rparr>
   = Some \<lparr>sp = 1, tables = 0, align = True, dp = (1, 3), end_dp = (0, 0), result = - 1\<rparr>
   \<and> walk_variant2 1 (walk_u8 (mem_of [1, 5, 2, 5]))
       \<lparr>tag_id = 0, variant_count = 1, largest_variants_ptr = 0, tag_sa = set_sa 0 0\<rparr> 0 (1, 3)
       \<lparr>sp = 1, tables = 0, align = True, dp = (1, 3), end_dp = (0, 0), result = - 1\<rparr>
     = Some \<lparr>sp = 1, tables = 0, align = True, dp = (1, 3), end_dp = (0, 0), result = - 1\<rparr>
   \<and> walk_struct2 2 (walk_u8 (mem_of [1, 5, 2, 5])) 2 (cmp_new True 0 0 0 2)
     = Some \<lparr>sp = 1, tables = 0, align = True, dp = (1, 3), end_dp = (0, 0), result = - 1\<rparr>
   \<and> walk_variant2 2 (walk_u8 (mem_of [1, 5, 2, 5]))
       \<lparr>tag_id = 0, variant_count = 1, largest_variants_ptr = 0, tag_sa = set_sa 0 0\<rparr> 0 (1, 3)
       (cmp_new True 7 0 0 2)
     = Some ((cmp_new True 7 0 0 2)\<lparr>result := - 1\<rparr>)
   \<and> map_option sp (walk_struct2 2 (walk_u8 (mem_of [1, 5, 2, 5])) 2 (cmp_new True 0 0 0 0)) = Some 2
   \<and> map_option sp (walk_struct0 2 (walk_u8 (mem_of [1, 5, 2, 5])) 0 2 (cmp_new True 9 0 0 2)) = Some 2
   \<and> map_option sp (walk_struct0 2 (walk_u8 (mem_of [1, 5, 2, 5])) 0 2 (cmp_new True 9 0 0 0)) = Some 2
   \<and> map_option sp (cmp_walk two_u8_reader two_u8_memory 3 (cmp_new True 2 0 8 10)) = Some 5
   \<and> map_option result (cmp_walk two_u8_reader two_u8_memory 3 (cmp_new True 2 0 8 10)) = Some (- 1)
   \<and> map_option sp (cmp_walk two_u8_reader two_u8_memory 3 (cmp_new True 2 0 8 8)) = Some 5
   \<and> map_option result (cmp_walk two_u8_reader two_u8_memory 3 (cmp_new True 2 0 8 8)) = Some 0"
proof -
  let ?m = "mem_of [1, 5, 2, 5]"
  let ?ti = "\<lparr>tag_id = 0, variant_count = 1, largest_variants_ptr = 0, tag_sa = set_sa 0 0\<rparr>"
  let ?d = "\<lparr>sp = 1, tables = 0, align = True, dp = (1, 3), end_dp = (0, 0), result = - 1\<rparr>"
  let ?t = "\<lparr>sp = 2, tables = 0, align = True, dp = (2, 2), end_dp = (0, 0), result = 0\<rparr>"
  let ?vs = "\<lparr>sp = 1, tables = 0, align = True, dp = (0, 2), end_dp = (0, 0), result = 0\<rparr>"
  let ?ve = "\<lparr>sp = 2, tables = 0, align = True, dp = (1, 3), end_dp = (0, 0), result = - 1\<rparr>"
  let ?sd = "\<lparr>sp = 2, tables = 0, align = True, dp = (1, 3), end_dp = (0, 0), result = - 1\<rparr>"
  let ?R = two_u8_reader
  let ?M = two_u8_memory
  let ?cd = "\<lparr>sp = 5, tables = 0, align = True, dp = (9, 11), end_dp = (0, 0), result = - 1\<rparr>"
  let ?ct = "\<lparr>sp = 5, tables = 0, align = True, dp = (10, 10), end_dp = (0, 0), result = 0\<rparr>"
  note ev = walk_u8_def walk_number1_def ALIGN_TO_def align_to_def walk_number2_def
    cmp_number_def get_dp_def load_u8_def cmp_new_def mem_of_def
  have field: "walk_u8 ?m (cmp_new True 0 0 0 2) = Some ?d"
    by (simp add: ev)
  have vfield: "walk_u8 ?m (cmp_sub (cmp_new True 7 0 0 2) (fst (1, 3)) 0) = Some ?ve"
    by (simp add: ev cmp_sub_def)
  have tie: "walk_struct2 2 (walk_u8 ?m) 2 (cmp_new True 0 0 0 0) = Some ?t"
    by (simp add: ev numeral_2_eq_2)
  have s0d: "walk_struct0 2 (walk_u8 ?m) 0 2 (cmp_new True 9 0 0 2) = Some ?sd"
    by (simp add: ev walk_struct0_def numeral_2_eq_2)
  have s0t: "walk_struct0 2 (walk_u8 ?m) 0 2 (cmp_new True 9 0 0 0) = Some ?t"
    by (simp add: ev walk_struct0_def numeral_2_eq_2)
  have wd: "cmp_walk ?R ?M 3 (cmp_new True 2 0 8 10) = Some ?cd"
    using two_u8_decided by (simp add: numeral_3_eq_3)
  have wt: "cmp_walk ?R ?M 3 (cmp_new True 2 0 8 8) = Some ?ct"
    using two_u8_tied by (simp add: numeral_3_eq_3)
  have a: "walk_struct2 1 (walk_u8 ?m) 2 ?d = Some ?d"
    using compare_result_sticky_cursor_same
      [where c = ?d and fuel = 1 and walk = "walk_u8 ?m" and end_sp = 2,
       THEN conjunct1] by simp
  have a': "walk_variant2 1 (walk_u8 ?m) ?ti 0 (1, 3) ?d = Some ?d"
    using compare_result_sticky_cursor_same
      [where c = ?d and fuel = 1 and walk = "walk_u8 ?m" and tinfo = ?ti
                and variant_id = 0 and vpe = "(1, 3)",
       THEN conjunct2, THEN conjunct2, THEN conjunct1]
    by simp
  have "walk_struct2 (Suc 1) (walk_u8 ?m) 2 (cmp_new True 0 0 0 2) = Some (?d\<lparr>align := True\<rparr>)"
    using field compare_result_sticky_cursor_same
      [where c = "cmp_new True 0 0 0 2" and fuel = 1 and walk = "walk_u8 ?m"
                      and end_sp = 2 and ca = ?d,
       THEN conjunct2, THEN conjunct2, THEN conjunct2, THEN conjunct1]
    by (simp add: cmp_new_def)
  then have b: "walk_struct2 2 (walk_u8 ?m) 2 (cmp_new True 0 0 0 2) = Some ?d"
    by (simp add: numeral_2_eq_2)
  have "walk_variant2 (Suc 1) (walk_u8 ?m) ?ti 0 (1, 3) (cmp_new True 7 0 0 2)
        = Some ((cmp_new True 7 0 0 2)\<lparr>result := result ?ve\<rparr>)"
    using vfield compare_result_sticky_cursor_same
      [where c = "cmp_new True 7 0 0 2" and fuel = 1 and walk = "walk_u8 ?m"
                       and tinfo = ?ti and variant_id = 0 and vpe = "(1, 3)" and sb = ?ve,
       THEN conjunct2, THEN conjunct2, THEN conjunct2, THEN conjunct2, THEN conjunct2, THEN conjunct1]
    by (simp add: cmp_new_def cmp_sub_def)
  then have v: "walk_variant2 2 (walk_u8 ?m) ?ti 0 (1, 3) (cmp_new True 7 0 0 2)
                = Some ((cmp_new True 7 0 0 2)\<lparr>result := - 1\<rparr>)"
    by (simp add: numeral_2_eq_2)
  have c: "sp ?t = 2"
    using tie compare_result_sticky_cursor_same
      [where c = "cmp_new True 0 0 0 0" and fuel = 2 and walk = "walk_u8 ?m"
                    and end_sp = 2 and cb = ?t,
       THEN conjunct2, THEN conjunct2, THEN conjunct2, THEN conjunct2, THEN conjunct2, THEN conjunct2, THEN conjunct2, THEN conjunct1]
    by simp
  have s: "sp ?sd = 2"
    using s0d compare_result_sticky_cursor_same
      [where c = "cmp_new True 9 0 0 2" and fuel = 2 and walk = "walk_u8 ?m"
                    and body = 0 and end_sp = 2 and cd = ?sd,
       THEN conjunct2, THEN conjunct2, THEN conjunct2, THEN conjunct2, THEN conjunct2, THEN conjunct2, THEN conjunct2, THEN conjunct2, THEN conjunct1]
    by simp
  have w: "sp ?ct = sp ?cd"
    using wd wt compare_result_sticky_cursor_same
      [where R = ?R and m = ?M and n = 3 and c = "cmp_new True 2 0 8 10" and ce = ?cd
                       and m' = ?M and n' = 3 and d = "cmp_new True 2 0 8 8" and de = ?ct,
       THEN conjunct2, THEN conjunct2, THEN conjunct2, THEN conjunct2, THEN conjunct2, THEN conjunct2, THEN conjunct2, THEN conjunct2, THEN conjunct2, THEN conjunct2]
    by (simp add: cmp_new_def)
  show ?thesis
    unfolding a a' b v tie s0d s0t wd wt using c s w by simp
qed

subsection \<open>Comparing an instance against itself\<close>

text \<open>The leaves: on two data cursors at the same address and a result of zero, a
  number other than a NaN and the pointer words compare equal, and the cursors move
  past them together.\<close>

lemma ALIGN_TO_same:
  "dp c = (a, a) \<Longrightarrow> ALIGN_TO n c = c\<lparr>dp := (pad_to (align c) n a, pad_to (align c) n a)\<rparr>"
  by (cases c) (simp add: ALIGN_TO_def pad_to_def)

lemma word_sless_irrefl: "\<not> word_sless x x"
  by (simp add: word_sless_alt)

lemma walk_number1_same:
  assumes "dp c = (a, a)" and "result c = 0"
    and "\<not> lt (load (pad_to (align c) sz a)) (load (pad_to (align c) sz a))"
    and "eq (load (pad_to (align c) sz a)) (load (pad_to (align c) sz a))"
  shows "walk_number1 lt eq load sz c
         = c\<lparr>sp := sp c + 1, dp := (pad_to (align c) sz a + sz, pad_to (align c) sz a + sz)\<rparr>"
proof (cases "align c")
  case True
  with assms show ?thesis
    by (cases c)
       (simp add: walk_number1_def ALIGN_TO_def pad_to_def walk_number2_def get_dp_def
          cmp_number_def Let_def)
next
  case False
  with assms show ?thesis
    by (cases c)
       (simp add: walk_number1_def ALIGN_TO_def pad_to_def walk_number2_def get_dp_def
          cmp_number_def Let_def)
qed

lemma walk_number_kind_same:
  assumes "dp c = (a, a)" and "result c = 0"
    and "nan_free m k (pad_to (align c) (num_size k) a)"
  shows "walk_number_kind m k c
         = c\<lparr>sp := sp c + 1,
              dp := (pad_to (align c) (num_size k) a + num_size k,
                     pad_to (align c) (num_size k) a + num_size k)\<rparr>"
proof (cases k)
  case F32
  with assms show ?thesis
    by (simp add: walk_number_kind_def nan_free_def nan_at_def walk_number1_same f32_lt_def
        f32_eq_def)
next
  case F64
  with assms show ?thesis
    by (simp add: walk_number_kind_def nan_free_def nan_at_def walk_number1_same f64_lt_def
        f64_eq_def)
qed (use assms in \<open>simp_all add: walk_number_kind_def walk_number1_same word_sless_irrefl\<close>)

lemma cmp_two_pointers_same:
  assumes "dp c = (a, a)" and "result c = 0"
  shows "cmp_two_pointers m c
         = c\<lparr>dp := (pad_to (align c) ptr_size a + 2 * ptr_size,
                     pad_to (align c) ptr_size a + 2 * ptr_size)\<rparr>"
  using assms
  by (cases c)
     (simp add: cmp_two_pointers_def ALIGN_TO_def pad_to_def bump_dp_def get_dp_def cmp_number_def
        Let_def)

lemma cmp_pointer_same:
  assumes "dp c = (a, a)" and "result c = 0"
  shows "cmp_pointer m c
         = c\<lparr>dp := (pad_to (align c) ptr_size a + ptr_size,
                     pad_to (align c) ptr_size a + ptr_size)\<rparr>"
  using assms
  by (cases c)
     (simp add: cmp_pointer_def ALIGN_TO_def pad_to_def bump_dp_def get_dp_def cmp_number_def
        Let_def)

lemma returns_Suc: "(\<And>k. n \<le> k \<Longrightarrow> f (Suc k) = Some r) \<Longrightarrow> returns f r"
  unfolding returns_def
proof (intro exI [of _ "Suc n"] allI impI)
  fix k assume a: "\<And>k. n \<le> k \<Longrightarrow> f (Suc k) = Some r" and "Suc n \<le> k"
  then obtain j where "k = Suc j" "n \<le> j" by (cases k) auto
  with a show "f k = Some r" by simp
qed

text \<open>Each step of the skeleton returns, with a result of zero and both data cursors
  at the end of the instance, once the walks and loops inside it do.\<close>

lemma returns2_Suc:
  assumes "\<And>k j. n \<le> k \<Longrightarrow> n \<le> j \<Longrightarrow> f (Suc k) j = Some r"
  shows "returns2 f r"
  unfolding returns2_def
proof (intro exI [of _ "Suc n"] allI impI)
  fix k j assume "Suc n \<le> k" "Suc n \<le> j"
  then obtain i where "k = Suc i" "n \<le> i" by (cases k) auto
  with assms [of i j] \<open>Suc n \<le> j\<close> show "f k j = Some r" by simp
qed

lemma returnsD: "returns f r \<Longrightarrow> \<exists>n. \<forall>k\<ge>n. f k = Some r"
  by (simp add: returns_def)

lemma returns2D: "returns2 f r \<Longrightarrow> \<exists>n. \<forall>k\<ge>n. \<forall>j\<ge>n. f k j = Some r"
  by (simp add: returns2_def)

lemma starts_at_moved [simp]: "starts_at c s al a \<Longrightarrow> starts_at (moved c s' al' a') s' al' a'"
  by (simp add: starts_at_def moved_def)

lemma moved_same: "starts_at c s al a \<Longrightarrow> moved c s al a = c"
  by (cases c) (auto simp: starts_at_def moved_def)

lemma result_moved [simp]: "result (moved c s al a) = result c"
  by (simp add: moved_def)

lemma step_number:
  assumes c: "starts_at c s al a" and d: "decode R s = SHAPE_NUMBER k"
    and ok: "nan_free m k (pad_to al (num_size k) a)"
  shows "returns (\<lambda>n. cmp_walk R m n c)
           (moved c (s + 1) al (pad_to al (num_size k) a + num_size k))"
proof (rule returns_Suc [of 0])
  fix j :: nat
  have "walk_number_kind m k c
        = c\<lparr>sp := sp c + 1,
             dp := (pad_to (align c) (num_size k) a + num_size k,
                    pad_to (align c) (num_size k) a + num_size k)\<rparr>"
    using c ok by (intro walk_number_kind_same) (simp_all add: starts_at_def)
  also have "\<dots> = moved c (s + 1) al (pad_to al (num_size k) a + num_size k)"
    using c by (cases c) (auto simp: starts_at_def moved_def)
  finally show "cmp_walk R m (Suc j) c
                = Some (moved c (s + 1) al (pad_to al (num_size k) a + num_size k))"
    using c d by (simp add: starts_at_def)
qed

lemma step_two_pointers:
  assumes c: "starts_at c s al a"
  shows "(cmp_two_pointers m c)\<lparr>sp := s'\<rparr> = moved c s' al (pad_to al ptr_size a + 2 * ptr_size)"
proof -
  have "cmp_two_pointers m c
        = c\<lparr>dp := (pad_to (align c) ptr_size a + 2 * ptr_size,
                    pad_to (align c) ptr_size a + 2 * ptr_size)\<rparr>"
    using c by (intro cmp_two_pointers_same) (simp_all add: starts_at_def)
  then show ?thesis
    using c by (cases c) (auto simp: starts_at_def moved_def)
qed

lemma step_pointer:
  assumes c: "starts_at c s al a"
  shows "(cmp_pointer m c)\<lparr>sp := s'\<rparr> = moved c s' al (pad_to al ptr_size a + ptr_size)"
proof -
  have "cmp_pointer m c
        = c\<lparr>dp := (pad_to (align c) ptr_size a + ptr_size,
                    pad_to (align c) ptr_size a + ptr_size)\<rparr>"
    using c by (intro cmp_pointer_same) (simp_all add: starts_at_def)
  then show ?thesis
    using c by (cases c) (auto simp: starts_at_def moved_def)
qed

lemma step_fn:
  assumes c: "starts_at c s al a" and d: "decode R s = SHAPE_FN after"
  shows "returns (\<lambda>n. cmp_walk R m n c) (moved c after al (pad_to al ptr_size a + 2 * ptr_size))"
proof (rule returns_Suc [of 0])
  fix j :: nat
  show "cmp_walk R m (Suc j) c = Some (moved c after al (pad_to al ptr_size a + 2 * ptr_size))"
    using c d step_two_pointers [where c = c and m = m and s' = after] by (simp add: starts_at_def walk_fn2_def)
qed

lemma step_obj:
  assumes c: "starts_at c s al a" and d: "decode R s = SHAPE_OBJ after"
  shows "returns (\<lambda>n. cmp_walk R m n c) (moved c after al (pad_to al ptr_size a + 2 * ptr_size))"
proof (rule returns_Suc [of 0])
  fix j :: nat
  show "cmp_walk R m (Suc j) c = Some (moved c after al (pad_to al ptr_size a + 2 * ptr_size))"
    using c d step_two_pointers [where c = c and m = m and s' = after] by (simp add: starts_at_def walk_obj2_def)
qed

lemma step_res:
  assumes c: "starts_at c s al a" and d: "decode R s = SHAPE_RES dtor end_sp"
  shows "returns (\<lambda>n. cmp_walk R m n c) (moved c end_sp al (pad_to al ptr_size a + res_size R dtor))"
proof (rule returns_Suc [of 0])
  fix j :: nat
  have "cmp_two_pointers m c
        = c\<lparr>dp := (pad_to (align c) ptr_size a + 2 * ptr_size,
                    pad_to (align c) ptr_size a + 2 * ptr_size)\<rparr>"
    using c by (intro cmp_two_pointers_same) (simp_all add: starts_at_def)
  then have "walk_res0 m dtor end_sp (res_size R dtor) c
             = moved c end_sp al (pad_to al ptr_size a + res_size R dtor)"
    using c ALIGN_TO_same [of c a ptr_size]
    by (cases c) (auto simp: walk_res0_def walk_res2_def starts_at_def moved_def Let_def)
  then show "cmp_walk R m (Suc j) c
             = Some (moved c end_sp al (pad_to al ptr_size a + res_size R dtor))"
    using c d by (simp add: starts_at_def)
qed

lemma step_tydesc:
  assumes c: "starts_at c s al a" and d: "decode R s = SHAPE_TYDESC after"
  shows "returns (\<lambda>n. cmp_walk R m n c) (moved c after al (pad_to al ptr_size a + ptr_size))"
proof (rule returns_Suc [of 0])
  fix j :: nat
  show "cmp_walk R m (Suc j) c = Some (moved c after al (pad_to al ptr_size a + ptr_size))"
    using c d step_pointer [where c = c and m = m and s' = after] by (simp add: starts_at_def walk_tydesc2_def)
qed

lemma step_struct:
  assumes c: "starts_at c s al a" and d: "decode R s = SHAPE_STRUCT body e"
    and f: "returns2 (\<lambda>k j. walk_struct2 k (cmp_walk R m j) e (c\<lparr>sp := body\<rparr>))
              (moved (c\<lparr>sp := body\<rparr>) s' al' a')"
  shows "returns (\<lambda>n. cmp_walk R m n c) (moved c e al' a')"
proof -
  from returns2D [OF f] obtain n where
    n: "\<And>k j. n \<le> k \<Longrightarrow> n \<le> j \<Longrightarrow>
          walk_struct2 k (cmp_walk R m j) e (c\<lparr>sp := body\<rparr>) = Some (moved (c\<lparr>sp := body\<rparr>) s' al' a')"
    by blast
  have e: "(moved (c\<lparr>sp := body\<rparr>) s' al' a')\<lparr>sp := e\<rparr> = moved c e al' a'"
    by (simp add: moved_def)
  show ?thesis
  proof (rule returns_Suc [of n])
    fix k assume "n \<le> k"
    from n [OF this this] e
    show "cmp_walk R m (Suc k) c = Some (moved c e al' a')"
      using c d by (simp add: starts_at_def walk_struct0_def)
  qed
qed

lemma struct_loop_end:
  assumes c: "starts_at c e al a"
  shows "returns2 (\<lambda>k j. walk_struct2 k (cmp_walk R m j) e c) (moved c e al a)"
  unfolding returns2_def
proof (intro exI [of _ 0] allI impI)
  fix k j :: nat
  have "walk_struct2 k (cmp_walk R m j) e c = Some c"
    using c by (cases k) (simp_all add: starts_at_def)
  then show "walk_struct2 k (cmp_walk R m j) e c = Some (moved c e al a)"
    using moved_same [OF c] by simp
qed

lemma struct_loop_step:
  assumes c: "starts_at c s al a" and ne: "s \<noteq> e"
    and w: "returns (\<lambda>n. cmp_walk R m n c) (moved c s1 al1 a1)"
    and f: "returns2 (\<lambda>k j. walk_struct2 k (cmp_walk R m j) e (moved c s1 True a1))
              (moved (moved c s1 True a1) s' al' a')"
  shows "returns2 (\<lambda>k j. walk_struct2 k (cmp_walk R m j) e c) (moved c s' al' a')"
proof -
  from returnsD [OF w] obtain n1 where
    n1: "\<And>j. n1 \<le> j \<Longrightarrow> cmp_walk R m j c = Some (moved c s1 al1 a1)"
    by blast
  from returns2D [OF f] obtain n2 where
    n2: "\<And>k j. n2 \<le> k \<Longrightarrow> n2 \<le> j \<Longrightarrow>
          walk_struct2 k (cmp_walk R m j) e (moved c s1 True a1)
          = Some (moved (moved c s1 True a1) s' al' a')"
    by blast
  have a: "(moved c s1 al1 a1)\<lparr>align := True\<rparr> = moved c s1 True a1"
    by (simp add: moved_def)
  have b: "moved (moved c s1 True a1) s' al' a' = moved c s' al' a'"
    by (simp add: moved_def)
  show ?thesis
  proof (rule returns2_Suc [of "max n1 n2"])
    fix k j assume "max n1 n2 \<le> k" "max n1 n2 \<le> j"
    then have "n2 \<le> k" "n2 \<le> j" "n1 \<le> j" by simp_all
    from n1 [OF this(3)] n2 [OF this(1,2)] a b
    show "walk_struct2 (Suc k) (cmp_walk R m j) e c = Some (moved c s' al' a')"
      using c ne by (simp add: starts_at_def)
  qed
qed

lemma variant_loop_end:
  assumes s: "starts_at sub s al a" and e: "\<not> s < e"
  shows "returns2 (\<lambda>k j. walk_variant2_loop k (cmp_walk R m j) e c sub) (c, moved sub s al a)"
  unfolding returns2_def
proof (intro exI [of _ 0] allI impI)
  fix k j :: nat
  have "walk_variant2_loop k (cmp_walk R m j) e c sub = Some (c, sub)"
    using s e by (cases k) (simp_all add: starts_at_def)
  then show "walk_variant2_loop k (cmp_walk R m j) e c sub = Some (c, moved sub s al a)"
    using moved_same [OF s] by simp
qed

lemma variant_loop_step:
  assumes s: "starts_at sub s al a" and c: "result c = 0" and lt: "s < e"
    and w: "returns (\<lambda>n. cmp_walk R m n sub) (moved sub s1 al1 a1)"
    and f: "returns2 (\<lambda>k j. walk_variant2_loop k (cmp_walk R m j) e c (moved sub s1 True a1))
              (c, moved (moved sub s1 True a1) s' al' a')"
  shows "returns2 (\<lambda>k j. walk_variant2_loop k (cmp_walk R m j) e c sub) (c, moved sub s' al' a')"
proof -
  from returnsD [OF w] obtain n1 where
    n1: "\<And>j. n1 \<le> j \<Longrightarrow> cmp_walk R m j sub = Some (moved sub s1 al1 a1)"
    by blast
  from returns2D [OF f] obtain n2 where
    n2: "\<And>k j. n2 \<le> k \<Longrightarrow> n2 \<le> j \<Longrightarrow>
          walk_variant2_loop k (cmp_walk R m j) e c (moved sub s1 True a1)
          = Some (c, moved (moved sub s1 True a1) s' al' a')"
    by blast
  have a: "(moved sub s1 al1 a1)\<lparr>align := True\<rparr> = moved sub s1 True a1"
    by (simp add: moved_def)
  have b: "moved (moved sub s1 True a1) s' al' a' = moved sub s' al' a'"
    by (simp add: moved_def)
  have r: "c\<lparr>result := 0\<rparr> = c"
    using c by (cases c) simp
  show ?thesis
  proof (rule returns2_Suc [of "max n1 n2"])
    fix k j assume "max n1 n2 \<le> k" "max n1 n2 \<le> j"
    then have "n2 \<le> k" "n2 \<le> j" "n1 \<le> j" by simp_all
    from n1 [OF this(3)] n2 [OF this(1,2)] a b
    show "walk_variant2_loop (Suc k) (cmp_walk R m j) e c sub = Some (c, moved sub s' al' a')"
      using s c lt by (simp add: starts_at_def r)
  qed
qed

lemma vec_loop_end:
  assumes s: "starts_at sub s al a" and e: "\<not> a < e"
  shows "returns2 (\<lambda>k j. walk_vec2_loop k (reset_walk (cmp_walk R m j)) (e, e) c sub)
           (c, moved sub s al a)"
  unfolding returns2_def
proof (intro exI [of _ 0] allI impI)
  fix k j :: nat
  have "walk_vec2_loop k (reset_walk (cmp_walk R m j)) (e, e) c sub = Some (c, sub)"
    using s e by (cases k) (simp_all add: starts_at_def ptr_pair_less_def)
  then show "walk_vec2_loop k (reset_walk (cmp_walk R m j)) (e, e) c sub = Some (c, moved sub s al a)"
    using moved_same [OF s] by simp
qed

lemma vec_loop_step:
  assumes s: "starts_at sub s al a" and c: "result c = 0" and lt: "a < e"
    and w: "returns (\<lambda>n. cmp_walk R m n sub) (moved sub s1 al1 a1)"
    and f: "returns2 (\<lambda>k j. walk_vec2_loop k (reset_walk (cmp_walk R m j)) (e, e) c
                               (moved sub s True a1))
              (c, moved (moved sub s True a1) s' al' a')"
  shows "returns2 (\<lambda>k j. walk_vec2_loop k (reset_walk (cmp_walk R m j)) (e, e) c sub)
           (c, moved sub s' al' a')"
proof -
  from returnsD [OF w] obtain n1 where
    n1: "\<And>j. n1 \<le> j \<Longrightarrow> cmp_walk R m j sub = Some (moved sub s1 al1 a1)"
    by blast
  from returns2D [OF f] obtain n2 where
    n2: "\<And>k j. n2 \<le> k \<Longrightarrow> n2 \<le> j \<Longrightarrow>
          walk_vec2_loop k (reset_walk (cmp_walk R m j)) (e, e) c (moved sub s True a1)
          = Some (c, moved (moved sub s True a1) s' al' a')"
    by blast
  have a: "(moved sub s1 al1 a1)\<lparr>sp := sp sub, align := True\<rparr> = moved sub s True a1"
    using s by (simp add: moved_def starts_at_def)
  have b: "moved (moved sub s True a1) s' al' a' = moved sub s' al' a'"
    by (simp add: moved_def)
  have r: "c\<lparr>result := 0\<rparr> = c"
    using c by (cases c) simp
  show ?thesis
  proof (rule returns2_Suc [of "max n1 n2"])
    fix k j assume "max n1 n2 \<le> k" "max n1 n2 \<le> j"
    then have "n2 \<le> k" "n2 \<le> j" "n1 \<le> j" by simp_all
    from n1 [OF this(3)] n2 [OF this(1,2)] a b
    show "walk_vec2_loop (Suc k) (reset_walk (cmp_walk R m j)) (e, e) c sub
          = Some (c, moved sub s' al' a')"
      using s c lt by (simp add: starts_at_def ptr_pair_less_def reset_walk_def r)
  qed
qed

lemma step_tag:
  assumes c: "starts_at c s al a" and d: "decode R s = SHAPE_TAG tinfo after"
    and a0: "a0 = pad_to al (alignment (tag_sa tinfo)) a"
    and v: "variant_range R tinfo (load_le m a0 (discr_size R)) = (vp, ve)"
    and f: "\<And>c sub. starts_at sub (if vp \<noteq> 0 then vp else after) al (a0 + discr_size R) \<Longrightarrow> result c = 0 \<Longrightarrow>
              returns2 (\<lambda>k j. walk_variant2_loop k (cmp_walk R m j) ve c sub)
                (c, moved sub s' al' a')"
  shows "returns (\<lambda>n. cmp_walk R m n c) (moved c after al (a0 + size_sa (tag_sa tinfo)))"
proof -
  let ?c2 = "moved c after al (a0 + discr_size R)"
  let ?sub = "cmp_sub ?c2 vp 0"
  have c1: "ALIGN_TO (alignment (tag_sa tinfo)) c = c\<lparr>dp := (a0, a0)\<rparr>"
    using c a0 ALIGN_TO_same [of c a] by (simp add: starts_at_def)
  have c2: "c\<lparr>dp := (a0, a0), sp := after, dp := (a0 + discr_size R, a0 + discr_size R)\<rparr> = ?c2"
    using c by (cases c) (simp add: moved_def starts_at_def)
  have sub: "starts_at ?sub (if vp \<noteq> 0 then vp else after) al (a0 + discr_size R)"
    using c by (simp add: starts_at_def cmp_sub_def moved_def)
  have r: "result ?c2 = 0"
    using c by (simp add: starts_at_def)
  from returns2D [OF f [OF sub r]] obtain n where
    n: "\<And>k j. n \<le> k \<Longrightarrow> n \<le> j \<Longrightarrow>
          walk_variant2_loop k (cmp_walk R m j) ve ?c2 ?sub = Some (?c2, moved ?sub s' al' a')"
    by blast
  have num: "cmp_number (<) (=) (x, x) ?c2 = ?c2" for x :: nat
    using r by (cases c) (simp add: cmp_number_def moved_def)
  have fin: "?c2\<lparr>sp := after, dp := (a0 + size_sa (tag_sa tinfo), a0 + size_sa (tag_sa tinfo))\<rparr>
             = moved c after al (a0 + size_sa (tag_sa tinfo))"
    by (simp add: moved_def)
  show ?thesis
  proof (rule returns_Suc [of n])
    fix k assume k: "n \<le> k"
    have "walk_tag0 k (cmp_walk R m k) m (variant_range R) (discr_size R) tinfo after c
          = Some (moved c after al (a0 + size_sa (tag_sa tinfo)))"
      using n [OF k k] v r
      by (simp add: walk_tag0_def c1 bump_dp_def get_dp_def c2 walk_tag2_def num walk_variant1_def
          walk_variant2_def fin Let_def)
    then show "cmp_walk R m (Suc k) c = Some (moved c after al (a0 + size_sa (tag_sa tinfo)))"
      using c d by (simp add: starts_at_def)
  qed
qed

lemma step_vec:
  assumes c: "starts_at c s al a" and d: "decode R s = SHAPE_VEC kind is_pod elt end_sp"
    and a0: "a0 = pad_to al (alignment (vec_sa R kind)) a"
    and v: "vec_range R kind a0 = (b, e)"
    and f: "\<And>c sub. starts_at sub elt al b \<Longrightarrow> result c = 0 \<Longrightarrow>
              returns2 (\<lambda>k j. walk_vec2_loop k (reset_walk (cmp_walk R m j)) (e, e) c sub)
                (c, moved sub s' al' a')"
  shows "returns (\<lambda>n. cmp_walk R m n c) (moved c end_sp al (a0 + size_sa (vec_sa R kind)))"
proof -
  let ?c2 = "moved c elt al a0"
  let ?sub = "(cmp_sub_dp ?c2 (b, b))\<lparr>end_dp := (e, e)\<rparr>"
  have c1: "ALIGN_TO (alignment (vec_sa R kind)) c = c\<lparr>dp := (a0, a0)\<rparr>"
    using c a0 ALIGN_TO_same [of c a] by (simp add: starts_at_def)
  have c2: "c\<lparr>dp := (a0, a0), sp := elt\<rparr> = ?c2"
    using c by (cases c) (simp add: moved_def starts_at_def)
  have sub: "starts_at ?sub elt al b"
    using c by (simp add: starts_at_def cmp_sub_dp_def moved_def)
  have r: "result ?c2 = 0"
    using c by (simp add: starts_at_def)
  from returns2D [OF f [OF sub r]] obtain n where
    n: "\<And>k j. n \<le> k \<Longrightarrow> n \<le> j \<Longrightarrow>
          walk_vec2_loop k (reset_walk (cmp_walk R m j)) (e, e) ?c2 ?sub
          = Some (?c2, moved ?sub s' al' a')"
    by blast
  have num: "cmp_number (<) (=) (x, x) ?c2 = ?c2" for x :: int
    using r by (cases c) (simp add: cmp_number_def moved_def)
  have rng: "get_data_range (vec_range R kind) (a0, a0) = ((b, b), (e, e))"
    using v by (simp add: get_data_range_def)
  have fin: "?c2\<lparr>sp := end_sp,
                  dp := (a0 + size_sa (vec_sa R kind), a0 + size_sa (vec_sa R kind))\<rparr>
             = moved c end_sp al (a0 + size_sa (vec_sa R kind))"
    by (simp add: moved_def)
  show ?thesis
  proof (rule returns_Suc [of n])
    fix k assume k: "n \<le> k"
    have "walk_vec2 k (reset_walk (cmp_walk R m k)) is_pod ((b, b), (e, e)) ?c2 = Some ?c2"
      using n [OF k k] r by (simp add: walk_vec2_def num Let_def)
    then have "walk_vec0 k (cmp_walk R m k) (vec_range R kind) (vec_sa R kind) is_pod elt end_sp c
          = Some (moved c end_sp al (a0 + size_sa (vec_sa R kind)))"
      using rng fin by (simp add: walk_vec0_def c1 c2 walk_vec2_at_def Let_def)
    then show "cmp_walk R m (Suc k) c = Some (moved c end_sp al (a0 + size_sa (vec_sa R kind)))"
      using c d by (simp add: starts_at_def)
  qed
qed

lemma step_ptr:
  assumes c: "starts_at c s al a" and d: "decode R s = SHAPE_PTR kind body end_sp"
    and a0: "a0 = pad_to al ptr_size a"
    and f: "\<And>sub. starts_at sub body True (pointee R kind a0) \<Longrightarrow>
              returns (\<lambda>n. cmp_walk R m n sub) (moved sub s' al' a')"
  shows "returns (\<lambda>n. cmp_walk R m n c) (moved c end_sp al (a0 + ptr_size))"
proof -
  let ?c2 = "moved c body al a0"
  let ?sub = "(cmp_sub_dp ?c2 (pointee R kind a0, pointee R kind a0))\<lparr>align := True\<rparr>"
  have c1: "ALIGN_TO ptr_size c = c\<lparr>dp := (a0, a0)\<rparr>"
    using c a0 ALIGN_TO_same [of c a] by (simp add: starts_at_def)
  have c2: "c\<lparr>dp := (a0, a0), sp := body\<rparr> = ?c2"
    using c by (cases c) (simp add: moved_def starts_at_def)
  have sub: "starts_at ?sub body True (pointee R kind a0)"
    by (simp add: starts_at_def cmp_sub_dp_def moved_def)
  from returnsD [OF f [OF sub]] obtain n where
    n: "\<And>j. n \<le> j \<Longrightarrow> cmp_walk R m j ?sub = Some (moved ?sub s' al' a')"
    by blast
  have r: "?c2\<lparr>result := result (moved ?sub s' al' a')\<rparr> = ?c2"
    using c by (cases c) (simp add: starts_at_def moved_def cmp_sub_dp_def)
  have fin: "?c2\<lparr>sp := end_sp, dp := (a0 + ptr_size, a0 + ptr_size)\<rparr>
             = moved c end_sp al (a0 + ptr_size)"
    by (simp add: moved_def)
  have dpc: "dp ?c2 = (a0, a0)"
    by (simp add: moved_def)
  show ?thesis
  proof (rule returns_Suc [of n])
    fix k assume k: "n \<le> k"
    have "walk_ptr2 kind (cmp_walk R m k) (pointee R kind) ?c2 = Some ?c2"
      using n [OF k] r dpc
      by (cases kind)
         (simp_all add: walk_ptr2_def walk_contents1_def walk_box_contents2_def
            walk_uniq_contents2_def walk_rptr_contents2_def)
    then have "walk_ptr0 k (cmp_walk R m k) (pointee R kind) kind body end_sp c
          = Some (moved c end_sp al (a0 + ptr_size))"
      using fin by (simp add: walk_ptr0_def c1 c2 Let_def)
    then show "cmp_walk R m (Suc k) c = Some (moved c end_sp al (a0 + ptr_size))"
      using c d by (simp add: starts_at_def)
  qed
qed

text \<open>By induction on the derivation of a well-formed instance with no NaN: the
  compare walk of the instance against itself, and each of its loops, returns with
  enough fuel, the result zero and both data cursors at the end of the instance.\<close>

lemma wf_walk:
  shows "wf_instance R m (nan_free m) s al a s' al' a' \<Longrightarrow>
           (\<forall>c. starts_at c s al a \<longrightarrow> returns (\<lambda>n. cmp_walk R m n c) (moved c s' al' a'))"
    and "wf_fields R m (nan_free m) e s al a s' al' a' \<Longrightarrow>
           (\<forall>c. starts_at c s al a \<longrightarrow>
              returns2 (\<lambda>k j. walk_struct2 k (cmp_walk R m j) e c) (moved c s' al' a'))"
    and "wf_variant R m (nan_free m) e s al a s' al' a' \<Longrightarrow>
           (\<forall>c sub. starts_at sub s al a \<and> result c = 0 \<longrightarrow>
              returns2 (\<lambda>k j. walk_variant2_loop k (cmp_walk R m j) e c sub)
                (c, moved sub s' al' a'))"
    and "wf_elements R m (nan_free m) e s al a s' al' a' \<Longrightarrow>
           (\<forall>c sub. starts_at sub s al a \<and> result c = 0 \<longrightarrow>
              returns2 (\<lambda>k j. walk_vec2_loop k (reset_walk (cmp_walk R m j)) (e, e) c sub)
                (c, moved sub s' al' a'))"
proof (induction rule: wf_instance_wf_fields_wf_variant_wf_elements.inducts)
  case (wf_number s k al a)
  then show ?case by (blast intro: step_number)
next
  case (wf_struct s body end_sp al a s' al' a')
  show ?case
  proof (intro allI impI)
    fix c assume c: "starts_at c s al a"
    then have "starts_at (c\<lparr>sp := body\<rparr>) body al a" by (simp add: starts_at_def)
    with wf_struct(3)
    have "returns2 (\<lambda>k j. walk_struct2 k (cmp_walk R m j) end_sp (c\<lparr>sp := body\<rparr>))
            (moved (c\<lparr>sp := body\<rparr>) s' al' a')"
      by blast
    from step_struct [OF c wf_struct(1) this]
    show "returns (\<lambda>n. cmp_walk R m n c) (moved c end_sp al' a')" .
  qed
next
  case (wf_tag s tinfo after al a vp ve s' al' a')
  show ?case
  proof (intro allI impI)
    fix c assume c: "starts_at c s al a"
    show "returns (\<lambda>n. cmp_walk R m n c)
            (moved c after al (pad_to al (alignment (tag_sa tinfo)) a + size_sa (tag_sa tinfo)))"
      using wf_tag(4) by (intro step_tag [OF c wf_tag(1) refl wf_tag(2)]) blast
  qed
next
  case (wf_vec s kind is_pod elt end_sp al a b e s' al' a')
  show ?case
  proof (intro allI impI)
    fix c assume c: "starts_at c s al a"
    show "returns (\<lambda>n. cmp_walk R m n c)
            (moved c end_sp al (pad_to al (alignment (vec_sa R kind)) a + size_sa (vec_sa R kind)))"
      using wf_vec(4) by (intro step_vec [OF c wf_vec(1) refl wf_vec(2)]) blast
  qed
next
  case (wf_ptr s kind body end_sp al a s' al' a')
  show ?case
  proof (intro allI impI)
    fix c assume c: "starts_at c s al a"
    show "returns (\<lambda>n. cmp_walk R m n c) (moved c end_sp al (pad_to al ptr_size a + ptr_size))"
      using wf_ptr(3) by (intro step_ptr [OF c wf_ptr(1) refl]) blast
  qed
next
  case (wf_fn s after al a)
  then show ?case by (blast intro: step_fn)
next
  case (wf_obj s after al a)
  then show ?case by (blast intro: step_obj)
next
  case (wf_tydesc s after al a)
  then show ?case by (blast intro: step_tydesc)
next
  case (wf_res s dtor end_sp al a)
  then show ?case by (blast intro: step_res)
next
  case (wf_fields_end end_sp al a)
  then show ?case by (blast intro: struct_loop_end)
next
  case (wf_fields_step s end_sp al a s1 al1 a1 s' al' a')
  show ?case
  proof (intro allI impI)
    fix c assume c: "starts_at c s al a"
    have w: "returns (\<lambda>n. cmp_walk R m n c) (moved c s1 al1 a1)"
      using wf_fields_step(3) c by blast
    have "starts_at (moved c s1 True a1) s1 True a1"
      using c by simp
    then have f: "returns2 (\<lambda>k j. walk_struct2 k (cmp_walk R m j) end_sp (moved c s1 True a1))
                    (moved (moved c s1 True a1) s' al' a')"
      using wf_fields_step(5) by blast
    from struct_loop_step [OF c wf_fields_step(1) w f]
    show "returns2 (\<lambda>k j. walk_struct2 k (cmp_walk R m j) end_sp c) (moved c s' al' a')" .
  qed
next
  case (wf_variant_end s variant_end al a)
  then show ?case by (blast intro: variant_loop_end)
next
  case (wf_variant_step s variant_end al a s1 al1 a1 s' al' a')
  show ?case
  proof (intro allI impI, elim conjE)
    fix c sub :: cmp assume s: "starts_at sub s al a" and c: "result c = 0"
    have w: "returns (\<lambda>n. cmp_walk R m n sub) (moved sub s1 al1 a1)"
      using wf_variant_step(3) s by blast
    have "starts_at (moved sub s1 True a1) s1 True a1"
      using s by simp
    then have f: "returns2 (\<lambda>k j. walk_variant2_loop k (cmp_walk R m j) variant_end c
                                     (moved sub s1 True a1))
                    (c, moved (moved sub s1 True a1) s' al' a')"
      using wf_variant_step(5) c by blast
    from variant_loop_step [OF s c wf_variant_step(1) w f]
    show "returns2 (\<lambda>k j. walk_variant2_loop k (cmp_walk R m j) variant_end c sub)
            (c, moved sub s' al' a')" .
  qed
next
  case (wf_elements_end a data_end s al)
  then show ?case by (blast intro: vec_loop_end)
next
  case (wf_elements_step a data_end s al s1 al1 a1 s' al' a')
  show ?case
  proof (intro allI impI, elim conjE)
    fix c sub :: cmp assume s: "starts_at sub s al a" and c: "result c = 0"
    have w: "returns (\<lambda>n. cmp_walk R m n sub) (moved sub s1 al1 a1)"
      using wf_elements_step(3) s by blast
    have "starts_at (moved sub s True a1) s True a1"
      using s by simp
    then have f: "returns2 (\<lambda>k j. walk_vec2_loop k (reset_walk (cmp_walk R m j)) (data_end, data_end) c
                                     (moved sub s True a1))
                    (c, moved (moved sub s True a1) s' al' a')"
      using wf_elements_step(5) c by blast
    from vec_loop_step [OF s c wf_elements_step(1) w f]
    show "returns2 (\<lambda>k j. walk_vec2_loop k (reset_walk (cmp_walk R m j)) (data_end, data_end) c sub)
            (c, moved sub s' al' a')" .
  qed
qed


text \<open>The instance of \<open>example_memory\<close> at address 8 is a well-formed instance,
  with no NaN, of the struct that \<open>example_reader\<close> decodes at position 2.\<close>

lemma wf_numberI:
  "decode R s = SHAPE_NUMBER k \<Longrightarrow> ok k (pad_to al (num_size k) a) \<Longrightarrow> s' = s + 1 \<Longrightarrow>
   a' = pad_to al (num_size k) a + num_size k \<Longrightarrow> wf_instance R m ok s al a s' al a'"
  using wf_number [of R s k ok al a m] by simp

lemma wf_tagI:
  "decode R s = SHAPE_TAG tinfo after \<Longrightarrow>
   variant_range R tinfo (load_le m (pad_to al (alignment (tag_sa tinfo)) a) (discr_size R))
     = (vp, ve) \<Longrightarrow>
   wf_variant R m ok ve (if vp \<noteq> 0 then vp else after) al
     (pad_to al (alignment (tag_sa tinfo)) a + discr_size R) s' al' a' \<Longrightarrow>
   b = pad_to al (alignment (tag_sa tinfo)) a + size_sa (tag_sa tinfo) \<Longrightarrow>
   wf_instance R m ok s al a after al b"
  by (simp add: wf_tag)

lemma wf_vecI:
  "decode R s = SHAPE_VEC kind is_pod elt end_sp \<Longrightarrow>
   vec_range R kind (pad_to al (alignment (vec_sa R kind)) a) = (b, e) \<Longrightarrow>
   wf_elements R m ok e elt al b s' al' a' \<Longrightarrow>
   d = pad_to al (alignment (vec_sa R kind)) a + size_sa (vec_sa R kind) \<Longrightarrow>
   wf_instance R m ok s al a end_sp al d"
  by (simp add: wf_vec)

lemma wf_ptrI:
  "decode R s = SHAPE_PTR kind body end_sp \<Longrightarrow>
   wf_instance R m ok body True (pointee R kind (pad_to al ptr_size a)) s' al' a' \<Longrightarrow>
   d = pad_to al ptr_size a + ptr_size \<Longrightarrow>
   wf_instance R m ok s al a end_sp al d"
  by (simp add: wf_ptr)

lemma example_reader_simps:
  "decode example_reader 2 = SHAPE_STRUCT 3 8"
  "decode example_reader 3 = SHAPE_NUMBER U8"
  "decode example_reader 4 = SHAPE_VEC BoxedVec True 10 5"
  "decode example_reader 5 = SHAPE_TAG \<lparr>tag_id = 0, variant_count = 2, largest_variants_ptr = 0,
                                 tag_sa = set_sa 8 4\<rparr> 6"
  "decode example_reader 6 = SHAPE_PTR UniqPtr 30 7"
  "decode example_reader 7 = SHAPE_NUMBER F32"
  "decode example_reader 10 = SHAPE_NUMBER U8"
  "decode example_reader 20 = SHAPE_NUMBER U8"
  "decode example_reader 30 = SHAPE_NUMBER U8"
  "variant_range example_reader tinfo v = (20, 21)"
  "discr_size example_reader = 4"
  "vec_range example_reader kind a = (48, 50)"
  "vec_sa example_reader kind = set_sa 8 8"
  "pointee example_reader pk a = 60"
  by (simp_all add: example_reader_def)

lemma example_instance:
  "wf_instance example_reader example_memory (nan_free example_memory) 2 True 8 8 True 44"
proof -
  let ?R = example_reader
  let ?m = example_memory
  let ?ok = "nan_free ?m"
  note defs = example_reader_simps pad_to_def align_to_def set_sa_def ptr_size_def nan_free_def
    nan_at_def
  have u8: "wf_instance ?R ?m ?ok 3 True 8 4 True 9"
    by (rule wf_numberI [where k = U8]) (simp_all add: defs)
  have e1: "wf_instance ?R ?m ?ok 10 True 48 11 True 49"
    by (rule wf_numberI [where k = U8]) (simp_all add: defs)
  have e2: "wf_instance ?R ?m ?ok 10 True 49 11 True 50"
    by (rule wf_numberI [where k = U8]) (simp_all add: defs)
  have e3: "wf_elements ?R ?m ?ok 50 10 True 50 10 True 50"
    by (rule wf_elements_end) simp
  have e4: "wf_elements ?R ?m ?ok 50 10 True 49 10 True 50"
    by (rule wf_elements_step [OF _ e2 e3]) simp
  have es: "wf_elements ?R ?m ?ok 50 10 True 48 10 True 50"
    by (rule wf_elements_step [OF _ e1 e4]) simp
  have vec: "wf_instance ?R ?m ?ok 4 True 9 5 True 24"
    by (rule wf_vecI [where kind = BoxedVec and is_pod = True and elt = 10 and b = 48 and e = 50
          and s' = 10 and al' = True and a' = 50])
       (simp_all add: defs es)
  have p1: "wf_instance ?R ?m ?ok 20 True 28 21 True 29"
    by (rule wf_numberI [where k = U8]) (simp_all add: defs)
  have p2: "wf_variant ?R ?m ?ok 21 21 True 29 21 True 29"
    by (rule wf_variant_end) simp
  have vs: "wf_variant ?R ?m ?ok 21 20 True 28 21 True 29"
    by (rule wf_variant_step [OF _ p1 p2]) simp
  have tag: "wf_instance ?R ?m ?ok 5 True 24 6 True 32"
    by (rule wf_tagI [where tinfo = "\<lparr>tag_id = 0, variant_count = 2, largest_variants_ptr = 0,
                                 tag_sa = set_sa 8 4\<rparr>" and vp = 20 and ve = 21
          and s' = 21 and al' = True and a' = 29])
       (simp_all add: defs vs)
  have q1: "wf_instance ?R ?m ?ok 30 True 60 31 True 61"
    by (rule wf_numberI [where k = U8]) (simp_all add: defs)
  have ptr: "wf_instance ?R ?m ?ok 6 True 32 7 True 40"
    by (rule wf_ptrI [where kind = UniqPtr and body = 30 and s' = 31 and al' = True and a' = 61])
       (simp_all add: defs q1)
  have f32: "wf_instance ?R ?m ?ok 7 True 40 8 True 44"
    by (rule wf_numberI [where k = F32])
       (simp_all add: defs load_u32_def load_le_numeral example_memory_def mem_of_def
          f32_is_nan_def)
  have f5: "wf_fields ?R ?m ?ok 8 8 True 44 8 True 44"
    by (rule wf_fields_end)
  have f4: "wf_fields ?R ?m ?ok 8 7 True 40 8 True 44"
    by (rule wf_fields_step [OF _ f32 f5]) simp
  have f3: "wf_fields ?R ?m ?ok 8 6 True 32 8 True 44"
    by (rule wf_fields_step [OF _ ptr f4]) simp
  have f2: "wf_fields ?R ?m ?ok 8 5 True 24 8 True 44"
    by (rule wf_fields_step [OF _ tag f3]) simp
  have f1: "wf_fields ?R ?m ?ok 8 4 True 9 8 True 44"
    by (rule wf_fields_step [OF _ vec f2]) simp
  have fs: "wf_fields ?R ?m ?ok 8 3 True 8 8 True 44"
    by (rule wf_fields_step [OF _ u8 f1]) simp
  show ?thesis
    by (rule wf_struct [where body = 3 and s' = 8]) (simp_all add: defs fs)
qed

text \<open>On that instance the walk returns from fuel 6 on.\<close>

lemma example_evaluates:
  "shape_cmp_type (cmp_walk example_reader example_memory (Suc (Suc (Suc (Suc (Suc (Suc 0)))))))
     9 \<lparr>shape = 2, shape_tables = 0\<rparr> 8 8 CMP_EQ
   = Some (\<lparr>sp = 8, tables = 0, align = True, dp = (44, 44), end_dp = (0, 0), result = 0\<rparr>, 1)"
  by (simp add: example_reader_simps walk_struct0_def walk_tag0_def walk_vec0_def walk_ptr0_def
      walk_vec2_at_def walk_vec2_def reset_walk_def get_data_range_def walk_tag2_def
      walk_variant1_def walk_variant2_def cmp_sub_def cmp_sub_dp_def walk_ptr2_def
      walk_contents1_def walk_uniq_contents2_def walk_number_kind_def walk_number1_def
      ALIGN_TO_def align_to_def walk_number2_def cmp_number_def get_dp_def bump_dp_def
      load_u8_def load_u32_def load_le_numeral cmp_new_def example_memory_def mem_of_def
      set_sa_def ptr_size_def ptrdiff_to_int_def f32_lt_def f32_eq_def f32_is_nan_def
      f32_key_def Let_def shape_cmp_type_def CMP_EQ_def ptr_pair_less_def)


lemma nan_is_nan: "f32_is_nan 0x7FC00000"
  by (simp add: f32_is_nan_def)

lemma load_nan_memory: "load_u32 nan_memory 0 = 0x7FC00000"
  by (simp add: load_u32_def load_le_numeral nan_memory_def mem_of_def)


subsection \<open>Comparing vectors\<close>

lemma walk_vec2_loop_stop:
  "\<not> (result c = 0 \<and> ptr_pair_less (dp sub) e) \<Longrightarrow> walk_vec2_loop fuel w e c sub = Some (c, sub)"
  by (cases fuel) auto

lemma walk_vec2_loop_elementwise:
  assumes elt: "elements_walk w (ea, eb) sz ecmp" and sz: "0 < sz"
  shows "dp sub = (a, b) \<Longrightarrow> ea = a + na * sz \<Longrightarrow> eb = b + nb * sz \<Longrightarrow> result c = 0 \<Longrightarrow>
         min na nb \<le> fuel \<Longrightarrow>
         \<exists>suba. walk_vec2_loop fuel w (ea, eb) c sub
                = Some (c\<lparr>result := first_mismatch ecmp sz (a, b) (min na nb)\<rparr>, suba)"
proof (induction na arbitrary: nb a b fuel c sub)
  case 0
  then have "\<not> ptr_pair_less (dp sub) (ea, eb)" by (simp add: ptr_pair_less_def)
  then have "walk_vec2_loop fuel w (ea, eb) c sub = Some (c, sub)"
    by (simp add: walk_vec2_loop_stop)
  with 0 show ?case by simp
next
  case (Suc n)
  show ?case
  proof (cases nb)
    case 0
    with Suc.prems have "\<not> ptr_pair_less (dp sub) (ea, eb)" by (simp add: ptr_pair_less_def)
    then have "walk_vec2_loop fuel w (ea, eb) c sub = Some (c, sub)"
      by (simp add: walk_vec2_loop_stop)
    with 0 Suc.prems show ?thesis by simp
  next
    case (Suc n')
    with Suc.prems obtain f where fuel: "fuel = Suc f" and f: "min n n' \<le> f"
      by (cases fuel) auto
    have less: "ptr_pair_less (dp sub) (ea, eb)"
      using Suc.prems Suc sz by (simp add: ptr_pair_less_def)
    from elt less have "\<exists>sa. w sub = Some sa \<and> dp sa = (fst (dp sub) + sz, snd (dp sub) + sz)
                          \<and> result sa = ecmp (dp sub)"
      unfolding elements_walk_def by blast
    then obtain sb where sb: "w sub = Some sb"
      and dp: "dp sb = (a + sz, b + sz)" and res: "result sb = ecmp (a, b)"
      by (auto simp: Suc.prems(1))
    show ?thesis
    proof (cases "ecmp (a, b) = 0")
      case False
      then have "walk_vec2_loop f w (ea, eb) (c\<lparr>result := result sb\<rparr>) (sb\<lparr>align := True\<rparr>)
                 = Some (c\<lparr>result := result sb\<rparr>, sb\<lparr>align := True\<rparr>)"
        by (simp add: walk_vec2_loop_stop res)
      with False less sb Suc.prems(4) show ?thesis
        by (simp add: fuel Suc res)
    next
      case True
      have "\<exists>suba. walk_vec2_loop f w (ea, eb) (c\<lparr>result := result sb\<rparr>) (sb\<lparr>align := True\<rparr>)
              = Some ((c\<lparr>result := result sb\<rparr>)
                        \<lparr>result := first_mismatch ecmp sz (a + sz, b + sz) (min n n')\<rparr>, suba)"
        using Suc.prems(2,3) Suc True f
        by (intro Suc.IH) (simp_all add: dp res)
      with True less sb Suc.prems(4) show ?thesis
        by (simp add: fuel Suc res)
    qed
  qed
qed


lemma ptrdiff_to_int_small:
  "n < 2 ^ 31 \<Longrightarrow> ptrdiff_to_int (a + n) a = int n"
proof -
  assume "n < 2 ^ 31"
  then have "int n < 2 ^ 31" by (metis of_nat_less_iff of_nat_numeral of_nat_power)
  then have "signed_take_bit 31 (int n) = int n"
    by (intro signed_take_bit_int_eq_self) simp_all
  then have "sint (word_of_int (int n) :: 32 word) = int n"
    by (simp only: signed_of_int) simp
  then show ?thesis by (simp add: ptrdiff_to_int_def)
qed

text \<open>What \<^verbatim>\<open>walk_vec2\<close> does on two vectors of \<open>na\<close> and \<open>nb\<close> elements
  of \<open>sz\<close> bytes whose lengths in bytes are below \<open>2^31\<close>: it returns, the first
  element pair that does not tie among the first \<open>min na nb\<close> decides, and when
  they all tie the result is the comparison of the lengths. The element walk is
  constrained only where both cursors are before their ends, so no element past the
  shorter length counts.\<close>

lemma walk_vec2_elementwise:
  assumes elt: "elements_walk w (a + na * sz, b + nb * sz) sz ecmp" and sz: "0 < sz"
    and c: "result c = 0" and fuel: "min na nb \<le> fuel"
    and small: "na * sz < 2 ^ 31" "nb * sz < 2 ^ 31"
  shows "walk_vec2 fuel w is_pod ((a, b), (a + na * sz, b + nb * sz)) c
         = Some (c\<lparr>result := (if first_mismatch ecmp sz (a, b) (min na nb) \<noteq> 0
                               then first_mismatch ecmp sz (a, b) (min na nb)
                               else three_way na nb)\<rparr>)"
proof -
  let ?sub = "(cmp_sub_dp c (a, b))\<lparr>end_dp := (a + na * sz, b + nb * sz)\<rparr>"
  have "dp ?sub = (a, b)" by (simp add: cmp_sub_dp_def)
  from walk_vec2_loop_elementwise [OF elt sz this refl refl c fuel]
  obtain suba where
    l: "walk_vec2_loop fuel w (a + na * sz, b + nb * sz) c ?sub
        = Some (c\<lparr>result := first_mismatch ecmp sz (a, b) (min na nb)\<rparr>, suba)"
    by blast
  have len: "ptrdiff_to_int (a + na * sz) a = int (na * sz)"
            "ptrdiff_to_int (b + nb * sz) b = int (nb * sz)"
    using small by (simp_all only: ptrdiff_to_int_small)
  have tw: "cmp_number (<) (=) (int (na * sz), int (nb * sz)) (c\<lparr>result := r\<rparr>)
            = c\<lparr>result := three_way na nb\<rparr>" for r
    using sz by (simp add: three_way_def cmp_number_def)
  show ?thesis
  proof (cases "first_mismatch ecmp sz (a, b) (min na nb) = 0")
    case True
    have "walk_vec2 fuel w is_pod ((a, b), (a + na * sz, b + nb * sz)) c
          = Some (cmp_number (<) (=) (int (na * sz), int (nb * sz))
                    (c\<lparr>result := first_mismatch ecmp sz (a, b) (min na nb)\<rparr>))"
      using l len True by (simp add: walk_vec2_def Let_def)
    also have "cmp_number (<) (=) (int (na * sz), int (nb * sz))
                 (c\<lparr>result := first_mismatch ecmp sz (a, b) (min na nb)\<rparr>)
               = c\<lparr>result := three_way na nb\<rparr>"
      by (rule tw)
    finally show ?thesis using True by simp
  next
    case False
    then show ?thesis
      using l by (simp add: walk_vec2_def Let_def)
  qed
qed

text \<open>The examples of the spec, on byte vectors: [1, 2] against [1, 2, 3] is less,
  [1, 3] against [1, 2, 3] is greater.\<close>

lemma walk_vec2_examples:
  "map_option result
     (walk_vec2 3 (walk_u8 (mem_of [1, 2, 1, 2, 3])) True ((0, 2), (2, 5)) (cmp_new True 0 0 0 2))
   = Some (- 1)"
  "map_option result
     (walk_vec2 3 (walk_u8 (mem_of [1, 3, 1, 2, 3])) True ((0, 2), (2, 5)) (cmp_new True 0 0 0 2))
   = Some 1"
  by (simp_all add: walk_vec2_def Let_def ptr_pair_less_def cmp_sub_dp_def cmp_new_def
      ptrdiff_to_int_def cmp_number_def walk_u8_def walk_number1_def ALIGN_TO_def align_to_def
      walk_number2_def get_dp_def load_u8_def mem_of_def numeral_3_eq_3)

text \<open>C2, on an empty byte vector (at address 16) against a byte vector of \<open>2^31\<close>
  bytes (from address 32) on the 64-bit target: no element pair is compared, the
  lengths 0 and \<open>2^31\<close> are stored in two \<^verbatim>\<open>int\<close>s, the second as
  \<open>-2^31\<close>, and the result is 1: the shorter vector compares greater than the
  longer one.\<close>

theorem walk_vec2_two_gigabytes:
  "map_option result
     (walk_vec2 0 (walk_u8 (mem_of [])) True ((16, 32), (16, 32 + 2 ^ 31)) (cmp_new True 0 0 16 32))
   = Some 1"
  by (simp add: walk_vec2_def Let_def ptr_pair_less_def cmp_sub_dp_def cmp_new_def
      ptrdiff_to_int_def cmp_number_def)

end
